theory Spec2Isabelle
  imports Main "HOL-Library.Sublist" "HOL-Library.Monad_Syntax"
begin

section \<open>The data type registry (schema/data\_type.go, not part of the sources at hand)\<close>

text \<open>
  Modelled from the spec: the enumeration \<open>DataType\<close> and its two tables
  \<open>DataTypeToString\<close> / \<open>DataTypeFromString\<close> are declared outside
  \<open>var_type.go\<close>. The constants below are the ones \<open>var_type.go\<close> names
  (\<open>T_Unknown\<close>, \<open>T_List\<close>, \<open>T_Map\<close>, \<open>T_Struct\<close>, \<open>T_String\<close> and the
  ten integer types) together with the scalar types the spec lists (boolean, byte, floating
  point, timestamp). \<open>T_Unknown\<close> is the zero value of the type: \<open>ParseVarTypeExpr\<close>
  switches on it after a failed table lookup.
\<close>

datatype DataType =
    T_Unknown
  | T_Byte | T_Bool
  | T_Uint | T_Uint8 | T_Uint16 | T_Uint32 | T_Uint64
  | T_Int | T_Int8 | T_Int16 | T_Int32 | T_Int64
  | T_Float32 | T_Float64
  | T_String
  | T_Timestamp
  | T_List | T_Map
  | T_Struct

text \<open>
  Modelled from the spec: the canonical spellings. The list marker \<open>[]\<close> and the map
  keyword \<open>map\<close> are entries of the table because \<open>var_type.go\<close> reads them as
  \<open>DataTypeToString[T_List]\<close> and \<open>DataTypeToString[T_Map]\<close>.
\<close>

definition DataTypeToString_entries :: "(DataType \<times> string) list" where
  "DataTypeToString_entries =
     [(T_Byte, ''byte''), (T_Bool, ''bool''),
      (T_Uint, ''uint''), (T_Uint8, ''uint8''), (T_Uint16, ''uint16''),
      (T_Uint32, ''uint32''), (T_Uint64, ''uint64''),
      (T_Int, ''int''), (T_Int8, ''int8''), (T_Int16, ''int16''),
      (T_Int32, ''int32''), (T_Int64, ''int64''),
      (T_Float32, ''float32''), (T_Float64, ''float64''),
      (T_String, ''string''), (T_Timestamp, ''timestamp''),
      (T_Map, ''map''), (T_List, ''[]'')]"

text \<open>A Go map read of a missing key yields the zero value, here the empty string.\<close>

definition DataTypeToString :: "DataType \<Rightarrow> string" where
  "DataTypeToString t =
     (case map_of DataTypeToString_entries t of Some s \<Rightarrow> s | None \<Rightarrow> [])"

text \<open>
  Modelled from the spec: the reverse table is the inverse of \<open>DataTypeToString\<close>
  (the registry is a bidirectional mapping between values and spellings).
\<close>

definition DataTypeFromString :: "string \<Rightarrow> DataType option" where
  "DataTypeFromString s = map_of (map (\<lambda>(t, n). (n, t)) DataTypeToString_entries) s"

text \<open>Modelled from the spec: \<open>DataType.String()\<close> is the canonical spelling.\<close>

definition DataType_String :: "DataType \<Rightarrow> string" where
  "DataType_String t = DataTypeToString t"

section \<open>Go strings\<close>

text \<open>
  A Go string is a byte sequence. A slice expression \<open>s[i:j]\<close> panics unless
  \<open>0 \<le> i \<le> j \<le> len(s)\<close>; the result \<open>None\<close> stands for that panic.
\<close>

definition slice :: "string \<Rightarrow> int \<Rightarrow> int \<Rightarrow> string option" where
  "slice s i j =
     (if 0 \<le> i \<and> i \<le> j \<and> j \<le> int (length s)
      then Some (take (nat (j - i)) (drop (nat i) s)) else None)"

definition slice_from :: "string \<Rightarrow> int \<Rightarrow> string option" where
  "slice_from s i = slice s i (int (length s))"

definition slice_to :: "string \<Rightarrow> int \<Rightarrow> string option" where
  "slice_to s j = slice s 0 j"

definition HasPrefix :: "string \<Rightarrow> string \<Rightarrow> bool" where
  "HasPrefix s pre = (length pre \<le> length s \<and> take (length pre) s = pre)"

definition TrimPrefix :: "string \<Rightarrow> string \<Rightarrow> string" where
  "TrimPrefix s pre = (if HasPrefix s pre then drop (length pre) s else s)"

text \<open>\<open>strings.Index\<close>: the position of the first occurrence, or \<open>-1\<close>.\<close>

fun Index :: "string \<Rightarrow> string \<Rightarrow> int" where
  "Index [] substr = (if substr = [] then 0 else - 1)"
| "Index (c # s) substr =
     (if HasPrefix (c # s) substr then 0
      else (let r = Index s substr in if r < 0 then - 1 else r + 1))"

section \<open>Errors\<close>

text \<open>
  One constructor for each \<open>fmt.Errorf\<close> of \<open>var_type.go\<close>, holding the arguments
  of its format string in order.
\<close>

datatype error =
    ErrJSONEmpty
  | ErrJSONString
  | ErrEmptyExpr
  | ErrInvalidMapKeyType string string
  | ErrInvalidStruct string
  | ErrInvalidMapExpr string
  | ErrInvalidMapSyntax string
  | ErrInvalidMapKey string string

definition quoted :: "string \<Rightarrow> string" where
  "quoted s = [CHR 0x27] @ s @ [CHR 0x27]"

fun Error :: "error \<Rightarrow> string" where
  "Error ErrJSONEmpty = ''json error: type cannot be empty''"
| "Error ErrJSONString = ''json error: string value is expected''"
| "Error ErrEmptyExpr = ''schema error: type expr cannot be empty''"
| "Error (ErrInvalidMapKeyType key expr) =
     ''schema error: invalid map key type '' @ quoted key @ '' for expr '' @ quoted expr"
| "Error (ErrInvalidStruct structExpr) =
     ''schema error: invalid struct/message type '' @ quoted structExpr"
| "Error (ErrInvalidMapExpr expr) = ''schema error: invalid map expr for '' @ quoted expr"
| "Error (ErrInvalidMapSyntax expr) = ''schema error: invalid map syntax for '' @ quoted expr"
| "Error (ErrInvalidMapKey key expr) =
     ''schema error: invalid map key '' @ quoted key @ '' for '' @ quoted expr"

text \<open>The expression text an error reports (the last argument of its format string).\<close>

fun offending :: "error \<Rightarrow> string" where
  "offending ErrJSONEmpty = []"
| "offending ErrJSONString = []"
| "offending ErrEmptyExpr = []"
| "offending (ErrInvalidMapKeyType key expr) = expr"
| "offending (ErrInvalidStruct structExpr) = structExpr"
| "offending (ErrInvalidMapExpr expr) = expr"
| "offending (ErrInvalidMapSyntax expr) = expr"
| "offending (ErrInvalidMapKey key expr) = expr"

text \<open>
  The error taxonomy of the spec, as a classification of the messages of
  \<open>var_type.go\<close> (a definition after the words of the spec, not after the source).
\<close>

datatype ErrorKind =
  EmptyExpression | InvalidMapSyntax | InvalidMapKeyType | UnknownType | MalformedQuotedValue

fun spec_kind :: "error \<Rightarrow> ErrorKind" where
  "spec_kind ErrJSONEmpty = MalformedQuotedValue"
| "spec_kind ErrJSONString = MalformedQuotedValue"
| "spec_kind ErrEmptyExpr = EmptyExpression"
| "spec_kind (ErrInvalidMapKeyType key expr) = InvalidMapKeyType"
| "spec_kind (ErrInvalidStruct structExpr) = UnknownType"
| "spec_kind (ErrInvalidMapExpr expr) = InvalidMapSyntax"
| "spec_kind (ErrInvalidMapSyntax expr) = InvalidMapSyntax"
| "spec_kind (ErrInvalidMapKey key expr) = InvalidMapKeyType"

section \<open>The type expression tree\<close>

text \<open>A Go pointer is an \<open>option\<close>: \<open>None\<close> is \<open>nil\<close>.\<close>

text \<open>
  Modelled from the spec: \<open>Message\<close> and \<open>WebRPCSchema\<close> are declared outside
  \<open>var_type.go\<close>; the catalog is an ordered collection of message definitions, each with
  a name. Whatever else a message holds is the parameter \<open>'m\<close>. The source ranges over
  \<open>schema.Messages\<close> and reads \<open>msg.Name\<close> through each entry, so the entries are
  pointers, and the schema is passed as a pointer as well.
\<close>

datatype 'm Message = MkMessage (Name: string) (Body: 'm)

record 'm WebRPCSchema =
  Messages :: "'m Message option list"

text \<open>
  The catalogs the spec speaks of (a definition after the words of the spec): a schema that
  is there, whose every entry is a message definition.
\<close>

definition validCatalog :: "'m WebRPCSchema option \<Rightarrow> bool" where
  "validCatalog schema =
     (case schema of
        None \<Rightarrow> False
      | Some s \<Rightarrow> list_all (\<lambda>msg. msg \<noteq> None) (Messages s))"

datatype 'm VarStructType = VarStructType (Name: string) (Message: "'m Message option")

datatype 'm VarType =
    VarType (Expr: string) (Type: DataType)
            (List: "'m VarListType option") (Map: "'m VarMapType option")
            (Struct: "'m VarStructType option")
  and 'm VarListType = VarListType (Elem: "'m VarType option")
  and 'm VarMapType = VarMapType (Key: DataType) (Value: "'m VarType option")

text \<open>\<open>&VarType{}\<close>: every field at its zero value.\<close>

definition zeroVarType :: "'m VarType" where
  "zeroVarType = VarType [] T_Unknown None None None"

text \<open>Field assignments through the pointer \<open>vt\<close>.\<close>

fun set_Expr :: "string \<Rightarrow> 'm VarType \<Rightarrow> 'm VarType" where
  "set_Expr e (VarType _ t l m s) = VarType e t l m s"

fun set_Type :: "DataType \<Rightarrow> 'm VarType \<Rightarrow> 'm VarType" where
  "set_Type t (VarType e _ l m s) = VarType e t l m s"

fun set_List :: "'m VarListType option \<Rightarrow> 'm VarType \<Rightarrow> 'm VarType" where
  "set_List l (VarType e t _ m s) = VarType e t l m s"

fun set_Map :: "'m VarMapType option \<Rightarrow> 'm VarType \<Rightarrow> 'm VarType" where
  "set_Map m (VarType e t l _ s) = VarType e t l m s"

fun set_Struct :: "'m VarStructType option \<Rightarrow> 'm VarType \<Rightarrow> 'm VarType" where
  "set_Struct s (VarType e t l m _) = VarType e t l m s"

text \<open>
  A tree as the spec wants it after a successful parse (a definition after the words of the
  spec): no node of type \<open>T_Unknown\<close>, every list with an element and every map with a
  value, themselves such trees.
\<close>

fun concrete :: "'m VarType \<Rightarrow> bool" where
  "concrete (VarType e ty l m s) =
     (if ty = T_Unknown then False
      else if ty = T_List then
        (case l of
           Some (VarListType (Some elem)) \<Rightarrow> concrete elem
         | _ \<Rightarrow> False)
      else if ty = T_Map then
        (case m of
           Some (VarMapType key (Some val)) \<Rightarrow> concrete val
         | _ \<Rightarrow> False)
      else True)"

section \<open>var\_type.go\<close>

definition isListExpr :: "string \<Rightarrow> bool" where
  "isListExpr expr = (let listTest = DataTypeToString T_List in HasPrefix expr listTest)"

definition isMapExpr :: "string \<Rightarrow> bool" where
  "isMapExpr expr = (let mapTest = DataTypeToString T_Map @ ''<'' in HasPrefix expr mapTest)"

definition VarKeyDataTypes :: "DataType list" where
  "VarKeyDataTypes =
     [T_String, T_Uint, T_Uint8, T_Uint16, T_Uint32, T_Uint64,
      T_Int, T_Int8, T_Int16, T_Int32, T_Int64]"

definition VarIntegerDataTypes :: "DataType list" where
  "VarIntegerDataTypes =
     [T_Uint, T_Uint8, T_Uint16, T_Uint32, T_Uint64, T_Int, T_Int8, T_Int16, T_Int32, T_Int64]"

fun contains_type :: "DataType \<Rightarrow> DataType list \<Rightarrow> bool" where
  "contains_type dt [] = False"
| "contains_type dt (t # ts) = (if dt = t then True else contains_type dt ts)"

definition isValidVarType :: "string \<Rightarrow> DataType list \<Rightarrow> bool" where
  "isValidVarType s allowedList =
     (case DataTypeFromString s of
        None \<Rightarrow> False
      | Some dt \<Rightarrow> contains_type dt allowedList)"

definition isValidVarKeyType :: "string \<Rightarrow> bool" where
  "isValidVarKeyType s = isValidVarType s VarKeyDataTypes"

text \<open>
  \<open>getMessageType\<close>: the first message of the catalog whose name is the expression, with
  the flag \<open>ok\<close>. The loop reads \<open>msg.Name\<close> of every entry it passes, and the
  function reads \<open>schema.Messages\<close>: on a \<open>nil\<close> entry, or a \<open>nil\<close> schema, that
  read panics, which is the result \<open>None\<close>.
\<close>

fun findMessage ::
  "'m Message option list \<Rightarrow> string \<Rightarrow> ('m Message option \<times> bool) option" where
  "findMessage [] structExpr = Some (None, False)"
| "findMessage (None # msgs) structExpr = None"
| "findMessage (Some msg # msgs) structExpr =
     (if structExpr = Message.Name msg then Some (Some msg, True)
      else findMessage msgs structExpr)"

definition getMessageType ::
  "'m WebRPCSchema option \<Rightarrow> string \<Rightarrow> ('m Message option \<times> bool) option" where
  "getMessageType schema structExpr =
     (case schema of
        None \<Rightarrow> None
      | Some s \<Rightarrow> findMessage (Messages s) structExpr)"

text \<open>
  \<open>parseMapExpr\<close>: \<open>None\<close> is a slice out of range, \<open>Some (Inl e)\<close> the returned
  error, \<open>Some (Inr (key, value))\<close> the two substrings.
\<close>

definition parseMapExpr :: "string \<Rightarrow> (error + string \<times> string) option" where
  "parseMapExpr expr0 =
     (if \<not> isMapExpr expr0 then Some (Inl (ErrInvalidMapExpr expr0))
      else do {
        let mapKeyword = DataTypeToString T_Map;
        expr \<leftarrow> slice_from expr0 (int (length mapKeyword));
        first \<leftarrow> slice expr 0 1;
        if first \<noteq> ''<'' then Some (Inl (ErrInvalidMapSyntax expr))
        else do {
          final \<leftarrow> slice_from expr (int (length expr) - 1);
          if final \<noteq> ''>'' then Some (Inl (ErrInvalidMapSyntax expr))
          else do {
            expr \<leftarrow> slice expr 1 (int (length expr) - 1);
            let p = Index expr '','';
            if p < 0 then Some (Inl (ErrInvalidMapSyntax expr))
            else do {
              key \<leftarrow> slice expr 0 p;
              value \<leftarrow> slice_from expr (p + 1);
              if \<not> isValidVarKeyType key then Some (Inl (ErrInvalidMapKey key expr))
              else Some (Inr (key, value))
            }
          }
        }
      })"

text \<open>
  The table lookup and the test for a complex data type at the head of
  \<open>ParseVarTypeExpr\<close>: a failed lookup leaves \<open>dataType\<close> at its zero value.
\<close>

definition exprDataType :: "string \<Rightarrow> DataType" where
  "exprDataType expr =
     (case DataTypeFromString expr of
        Some dataType \<Rightarrow> dataType
      | None \<Rightarrow>
          if isListExpr expr then T_List
          else if isMapExpr expr then T_Map
          else T_Unknown)"

text \<open>
  \<open>ParseVarTypeExpr\<close> writes through the pointer \<open>vt\<close> and returns an error or
  \<open>nil\<close>. The model returns the error together with the \<open>VarType\<close> as the call
  leaves it, also when the error is not \<open>nil\<close>; \<open>None\<close> is a panic (of a slice in
  \<open>parseMapExpr\<close> or of a pointer read in \<open>getMessageType\<close>).
\<close>

function ParseVarTypeExpr ::
  "'m WebRPCSchema option \<Rightarrow> string \<Rightarrow> 'm VarType \<Rightarrow> (error option \<times> 'm VarType) option" where
  "ParseVarTypeExpr schema expr vt =
     (if expr = [] then Some (None, vt)
      else
        let vt = set_Expr expr vt;
            dataType = exprDataType expr;
            vt = set_Type dataType vt
        in
          if dataType = T_List then
            (case ParseVarTypeExpr schema (TrimPrefix expr (DataTypeToString T_List)) zeroVarType of
               None \<Rightarrow> None
             | Some (err, elem) \<Rightarrow> Some (err, set_List (Some (VarListType (Some elem))) vt))
          else if dataType = T_Map then
            (case parseMapExpr expr of
               None \<Rightarrow> None
             | Some (Inl err) \<Rightarrow> Some (Some err, vt)
             | Some (Inr (key, value)) \<Rightarrow>
                 (case DataTypeFromString key of
                    None \<Rightarrow> Some (Some (ErrInvalidMapKeyType key expr), vt)
                  | Some keyDataType \<Rightarrow>
                      (case ParseVarTypeExpr schema value zeroVarType of
                         None \<Rightarrow> None
                       | Some (err, val) \<Rightarrow>
                           Some (err, set_Map (Some (VarMapType keyDataType (Some val))) vt))))
          else if dataType = T_Unknown then
            (case getMessageType schema expr of
               None \<Rightarrow> None
             | Some (msg, ok) \<Rightarrow>
                 if \<not> ok \<or> msg = None then Some (Some (ErrInvalidStruct expr), vt)
                 else Some (None, set_Struct (Some (VarStructType expr msg)) (set_Type T_Struct vt)))
          else Some (None, vt))"
  by pat_completeness auto

text \<open>
  \<open>buildVarTypeExpr\<close>: \<open>None\<close> is the panic of reading through a \<open>nil\<close> pointer
  (\<open>vt.List.Elem\<close>, \<open>vt.Map.Value\<close>, \<open>vt.Struct.Name\<close>).
\<close>

fun buildVarTypeExpr :: "'m VarType \<Rightarrow> string \<Rightarrow> string option" where
  "buildVarTypeExpr (VarType e ty l m s) expr =
     (if ty = T_Unknown then Some ''<unknown>''
      else if ty = T_List then
        (case l of
           None \<Rightarrow> None
         | Some (VarListType None) \<Rightarrow> None
         | Some (VarListType (Some elem)) \<Rightarrow>
             (case buildVarTypeExpr elem expr of
                None \<Rightarrow> None
              | Some r \<Rightarrow> Some (expr @ ''[]'' @ r)))
      else if ty = T_Map then
        (case m of
           None \<Rightarrow> None
         | Some (VarMapType key None) \<Rightarrow> None
         | Some (VarMapType key (Some val)) \<Rightarrow>
             (case buildVarTypeExpr val [] of
                None \<Rightarrow> None
              | Some r \<Rightarrow> Some (expr @ ''map<'' @ DataType_String key @ '','' @ r @ ''>'')))
      else if ty = T_Struct then
        (case s of
           None \<Rightarrow> None
         | Some st \<Rightarrow> Some (expr @ Name st))
      else Some (expr @ DataType_String ty))"

text \<open>
  \<open>VarType.Parse\<close>, with the receiver passed in and returned.
\<close>

definition Parse ::
  "'m WebRPCSchema option \<Rightarrow> 'm VarType \<Rightarrow> (error option \<times> 'm VarType) option" where
  "Parse schema t =
     (if Expr t = [] then Some (Some ErrEmptyExpr, t)
      else
        (case ParseVarTypeExpr schema (Expr t) t of
           None \<Rightarrow> None
         | Some (Some err, t') \<Rightarrow> Some (Some err, t')
         | Some (None, t') \<Rightarrow>
             (case buildVarTypeExpr t' [] of
                None \<Rightarrow> None
              | Some canonical \<Rightarrow> Some (None, set_Expr canonical t'))))"

text \<open>
  \<open>VarType.UnmarshalJSON\<close> on the bytes \<open>b\<close>.
\<close>

definition UnmarshalJSON :: "string \<Rightarrow> 'm VarType \<Rightarrow> (error option \<times> 'm VarType) option" where
  "UnmarshalJSON b t =
     (if length b \<le> 2 then Some (Some ErrJSONEmpty, t)
      else do {
        let s = b;
        first \<leftarrow> slice s 0 1;
        if first \<noteq> [CHR 0x22] then Some (Some ErrJSONString, t)
        else do {
          final \<leftarrow> slice_from s (int (length s) - 1);
          if final \<noteq> [CHR 0x22] then Some (Some ErrJSONString, t)
          else do {
            s \<leftarrow> slice_from s 1;
            s \<leftarrow> slice_to s (int (length s) - 1);
            Some (None, set_Expr s t)
          }
        }
      })"

section \<open>Strings and slices\<close>

lemma DataTypeToString_List [simp]: "DataTypeToString T_List = ''[]''"
  by (simp add: DataTypeToString_def DataTypeToString_entries_def)

lemma DataTypeToString_Map [simp]: "DataTypeToString T_Map = ''map''"
  by (simp add: DataTypeToString_def DataTypeToString_entries_def)

lemma HasPrefix_append: "HasPrefix s pre \<longleftrightarrow> (\<exists>r. s = pre @ r)"
proof
  assume "HasPrefix s pre"
  then have "s = pre @ drop (length pre) s"
    unfolding HasPrefix_def by (metis append_take_drop_id)
  then show "\<exists>r. s = pre @ r" ..
next
  assume "\<exists>r. s = pre @ r"
  then show "HasPrefix s pre" unfolding HasPrefix_def by auto
qed

lemma isMapExpr_iff: "isMapExpr e \<longleftrightarrow> (\<exists>rest. e = ''map<'' @ rest)"
  by (simp add: isMapExpr_def HasPrefix_append)

lemma isListExpr_iff: "isListExpr e \<longleftrightarrow> (\<exists>rest. e = ''[]'' @ rest)"
  by (simp add: isListExpr_def HasPrefix_append)

lemma Index_single:
  "Index s [c] = (if c \<in> set s then int (length (takeWhile (\<lambda>x. x \<noteq> c) s)) else - 1)"
  by (induction s) (auto simp: HasPrefix_def Let_def)

lemma slice_from_eq:
  "slice_from s i = (if 0 \<le> i \<and> i \<le> int (length s) then Some (drop (nat i) s) else None)"
proof -
  have "0 \<le> i \<Longrightarrow> length (drop (nat i) s) \<le> nat (int (length s) - i)" by simp
  then show ?thesis unfolding slice_from_def slice_def by simp
qed

lemma slice_from_last:
  "s \<noteq> [] \<Longrightarrow> slice_from s (int (length s) - 1) = Some [last s]"
  unfolding slice_from_def slice_def
  by (cases s rule: rev_cases) auto

lemma slice_inner:
  "rest \<noteq> [] \<Longrightarrow> slice (c # rest) 1 (int (length (c # rest)) - 1) = Some (butlast rest)"
  unfolding slice_def
  by (cases rest rule: rev_cases) auto

lemma slice_key:
  "c \<in> set s \<Longrightarrow>
   slice s 0 (int (length (takeWhile (\<lambda>x. x \<noteq> c) s))) = Some (takeWhile (\<lambda>x. x \<noteq> c) s)"
proof -
  have "s = takeWhile (\<lambda>x. x \<noteq> c) s @ dropWhile (\<lambda>x. x \<noteq> c) s" by simp
  then have "take (length (takeWhile (\<lambda>x. x \<noteq> c) s)) s = takeWhile (\<lambda>x. x \<noteq> c) s"
    by (metis append_eq_conv_conj)
  then show ?thesis
    unfolding slice_def by (simp add: length_takeWhile_le)
qed

lemma slice_value:
  "c \<in> set s \<Longrightarrow>
   slice_from s (int (length (takeWhile (\<lambda>x. x \<noteq> c) s)) + 1) =
     Some (tl (dropWhile (\<lambda>x. x \<noteq> c) s))"
proof -
  assume c: "c \<in> set s"
  let ?k = "takeWhile (\<lambda>x. x \<noteq> c) s"
  let ?d = "dropWhile (\<lambda>x. x \<noteq> c) s"
  have d: "?d \<noteq> []" using c by simp
  have s: "s = ?k @ ?d" by simp
  have len: "length s = length ?k + length ?d" by (metis s length_append)
  have "length ?d \<ge> 1" using d by (cases ?d) auto
  then have bound: "length ?k + 1 \<le> length s" using len by linarith
  have "drop (length ?k) s = ?d" by (metis s append_eq_conv_conj)
  then have "drop (Suc (length ?k)) s = tl ?d" by (metis drop_Suc tl_drop)
  then show ?thesis
    using bound by (simp add: slice_from_eq nat_add_distrib)
qed

lemma parseMapExpr_not_map:
  "\<not> isMapExpr e \<Longrightarrow> parseMapExpr e = Some (Inl (ErrInvalidMapExpr e))"
  by (simp add: parseMapExpr_def)

lemma parseMapExpr_map:
  "parseMapExpr (''map<'' @ rest) =
     Some (if rest = [] \<or> last rest \<noteq> CHR ''>'' then Inl (ErrInvalidMapSyntax (''<'' @ rest))
           else let c = butlast rest in
             if CHR '','' \<notin> set c then Inl (ErrInvalidMapSyntax c)
             else let key = takeWhile (\<lambda>x. x \<noteq> CHR '','') c;
                      value = tl (dropWhile (\<lambda>x. x \<noteq> CHR '','') c)
                  in if \<not> isValidVarKeyType key then Inl (ErrInvalidMapKey key c)
                     else Inr (key, value))"
proof -
  have m: "isMapExpr (''map<'' @ rest)" by (simp add: isMapExpr_iff)
  have s1: "slice_from (''map<'' @ rest) 3 = Some (''<'' @ rest)"
    by (simp add: slice_from_eq)
  have s2: "slice (''<'' @ rest) 0 1 = Some ''<''"
    by (simp add: slice_def)
  have s3: "slice_from (''<'' @ rest) (int (length (''<'' @ rest)) - 1) = Some [last (''<'' @ rest)]"
    by (rule slice_from_last) simp
  show ?thesis
  proof (cases "rest = [] \<or> last rest \<noteq> CHR ''>''")
    case True
    then have "last (''<'' @ rest) \<noteq> CHR ''>''" by auto
    then show ?thesis
      using True m s1 s2 s3 by (simp add: parseMapExpr_def)
  next
    case False
    then have ne: "rest \<noteq> []" and l: "last (''<'' @ rest) = CHR ''>''" by auto
    have s4: "slice (''<'' @ rest) 1 (int (length (''<'' @ rest)) - 1) = Some (butlast rest)"
      using slice_inner [OF ne] by simp
    show ?thesis
    proof (cases "CHR '','' \<in> set (butlast rest)")
      case True
      show ?thesis
        using False m s1 s2 s3 s4 l True slice_key [OF True] slice_value [OF True]
        by (simp add: parseMapExpr_def Index_single Let_def)
    next
      case nc: False
      show ?thesis
        using False m s1 s2 s3 s4 l nc
        by (simp add: parseMapExpr_def Index_single Let_def)
    qed
  qed
qed

section \<open>The registry\<close>

lemma DataTypeFromString_iff:
  "DataTypeFromString s = Some dt \<longleftrightarrow>
     (dt, s) \<in> set DataTypeToString_entries"
proof -
  have d: "distinct (map fst (map (\<lambda>(t, n). (n, t)) DataTypeToString_entries))"
    by (simp add: DataTypeToString_entries_def)
  have "DataTypeFromString s = Some dt \<longleftrightarrow>
          (s, dt) \<in> set (map (\<lambda>(t, n). (n, t)) DataTypeToString_entries)"
    unfolding DataTypeFromString_def using map_of_eq_Some_iff [OF d] by blast
  also have "\<dots> \<longleftrightarrow> (dt, s) \<in> set DataTypeToString_entries"
    by auto
  finally show ?thesis .
qed

lemma DataTypeToString_iff:
  "(dt, s) \<in> set DataTypeToString_entries \<Longrightarrow> DataTypeToString dt = s"
proof -
  assume a: "(dt, s) \<in> set DataTypeToString_entries"
  have d: "distinct (map fst DataTypeToString_entries)"
    by (simp add: DataTypeToString_entries_def)
  have "map_of DataTypeToString_entries dt = Some s"
    using map_of_eq_Some_iff [OF d] a by blast
  then show ?thesis by (simp add: DataTypeToString_def)
qed


lemma DataTypeFromString_cases:
  "DataTypeFromString s = Some dt \<longleftrightarrow>
     (dt, s) \<in> {(T_Byte, ''byte''), (T_Bool, ''bool''),
      (T_Uint, ''uint''), (T_Uint8, ''uint8''), (T_Uint16, ''uint16''),
      (T_Uint32, ''uint32''), (T_Uint64, ''uint64''),
      (T_Int, ''int''), (T_Int8, ''int8''), (T_Int16, ''int16''),
      (T_Int32, ''int32''), (T_Int64, ''int64''),
      (T_Float32, ''float32''), (T_Float64, ''float64''),
      (T_String, ''string''), (T_Timestamp, ''timestamp''),
      (T_Map, ''map''), (T_List, ''[]'')}"
  unfolding DataTypeFromString_iff DataTypeToString_entries_def by simp

lemma DataTypeToString_FromString:
  "DataTypeFromString s = Some dt \<Longrightarrow> DataTypeToString dt = s"
  by (simp add: DataTypeFromString_iff DataTypeToString_iff)

lemma DataTypeFromString_List: "DataTypeFromString s = Some T_List \<longleftrightarrow> s = ''[]''"
  unfolding DataTypeFromString_cases by simp

lemma DataTypeFromString_Map: "DataTypeFromString s = Some T_Map \<longleftrightarrow> s = ''map''"
  unfolding DataTypeFromString_cases by simp

lemma DataTypeFromString_not_Unknown: "DataTypeFromString s \<noteq> Some T_Unknown"
  unfolding DataTypeFromString_cases by simp

lemma DataTypeFromString_not_Struct: "DataTypeFromString s \<noteq> Some T_Struct"
  unfolding DataTypeFromString_cases by simp

lemma DataTypeFromString_list_prefix:
  "DataTypeFromString (CHR ''['' # rest) = Some dt \<Longrightarrow> dt = T_List"
  unfolding DataTypeFromString_cases by simp

lemma DataTypeFromString_no_angle:
  "DataTypeFromString s = Some dt \<Longrightarrow> CHR ''<'' \<notin> set s"
  unfolding DataTypeFromString_cases by auto

lemma DataTypeFromString_no_comma:
  "DataTypeFromString s = Some dt \<Longrightarrow> CHR '','' \<notin> set s"
  unfolding DataTypeFromString_cases by auto

lemma exprDataType_List: "exprDataType expr = T_List \<longleftrightarrow> isListExpr expr"
proof (cases "DataTypeFromString expr")
  case None
  then show ?thesis by (simp add: exprDataType_def)
next
  case (Some dt)
  show ?thesis
  proof
    assume "exprDataType expr = T_List"
    then have "expr = ''[]''" using Some by (simp add: exprDataType_def DataTypeFromString_List)
    then show "isListExpr expr" by (simp add: isListExpr_iff)
  next
    assume "isListExpr expr"
    then obtain rest where "expr = CHR ''['' # CHR '']'' # rest" by (auto simp: isListExpr_iff)
    then have "dt = T_List" using Some DataTypeFromString_list_prefix by blast
    then show "exprDataType expr = T_List" using Some by (simp add: exprDataType_def)
  qed
qed

lemma contains_type_iff: "contains_type dt ts \<longleftrightarrow> dt \<in> set ts"
  by (induction ts) auto

lemma isValidVarKeyType_ex:
  "isValidVarKeyType key \<longleftrightarrow>
     (\<exists>dt. DataTypeFromString key = Some dt \<and> dt \<in> set VarKeyDataTypes)"
  by (simp add: isValidVarKeyType_def isValidVarType_def contains_type_iff
        split: option.splits)

lemma VarKeyDataTypes_spelling:
  assumes "DataTypeFromString key = Some dt" and "dt \<in> set VarKeyDataTypes"
  shows "key \<in> {''string'', ''uint'', ''uint8'', ''uint16'', ''uint32'', ''uint64'',
             ''int'', ''int8'', ''int16'', ''int32'', ''int64''}"
proof -
  have k: "key = DataTypeToString dt"
    using assms(1) by (simp add: DataTypeToString_FromString)
  have "dt = T_String \<or> dt = T_Uint \<or> dt = T_Uint8 \<or> dt = T_Uint16 \<or> dt = T_Uint32
      \<or> dt = T_Uint64 \<or> dt = T_Int \<or> dt = T_Int8 \<or> dt = T_Int16 \<or> dt = T_Int32
      \<or> dt = T_Int64"
    using assms(2) by (simp add: VarKeyDataTypes_def)
  then show ?thesis
    unfolding k
    by (elim disjE) (simp_all add: DataTypeToString_def DataTypeToString_entries_def)
qed

lemma spelling_VarKeyDataTypes:
  assumes "key \<in> {''string'', ''uint'', ''uint8'', ''uint16'', ''uint32'', ''uint64'',
             ''int'', ''int8'', ''int16'', ''int32'', ''int64''}"
  shows "isValidVarKeyType key"
proof -
  have "key = ''string'' \<or> key = ''uint'' \<or> key = ''uint8'' \<or> key = ''uint16''
      \<or> key = ''uint32'' \<or> key = ''uint64'' \<or> key = ''int'' \<or> key = ''int8''
      \<or> key = ''int16'' \<or> key = ''int32'' \<or> key = ''int64''"
    using assms by simp
  then show ?thesis
    by (elim disjE)
       (simp_all add: isValidVarKeyType_def isValidVarType_def VarKeyDataTypes_def
          DataTypeFromString_def DataTypeToString_entries_def)
qed


lemma parseMapExpr_value_shorter:
  assumes "parseMapExpr expr = Some (Inr (key, value))"
  shows "length value < length expr"
proof -
  have "isMapExpr expr"
    using assms parseMapExpr_not_map [of expr] by auto
  then obtain rest where e: "expr = ''map<'' @ rest" by (auto simp: isMapExpr_iff)
  have "value = tl (dropWhile (\<lambda>x. x \<noteq> CHR '','') (butlast rest))"
    using assms unfolding e parseMapExpr_map by (auto simp: Let_def split: if_splits)
  moreover have "length (dropWhile (\<lambda>x. x \<noteq> CHR '','') (butlast rest)) \<le> length (butlast rest)"
    by (rule length_dropWhile_le)
  ultimately have "length value \<le> length rest"
    by simp
  then show ?thesis by (simp add: e)
qed

section \<open>Termination of the parser\<close>

text \<open>
  Every recursive call of \<open>ParseVarTypeExpr\<close> is on a shorter expression.
\<close>

termination ParseVarTypeExpr
proof (relation "measure (\<lambda>(schema, expr, vt). length expr)", goal_cases)
  case 1
  show ?case by simp
next
  case (2 schema expr vt x xa xb)
  then have "exprDataType expr = T_List" by simp
  then have "exprDataType expr = T_List" by simp
  then have "isListExpr expr" by (simp add: exprDataType_List)
  then show ?case by (auto simp: isListExpr_iff TrimPrefix_def HasPrefix_append)
next
  case (3 schema expr vt x xa xb x2 xc xd y)
  then show ?case using parseMapExpr_value_shorter by auto
qed

section \<open>The branches of ParseVarTypeExpr\<close>

declare ParseVarTypeExpr.simps [simp del]

lemma ParseVarTypeExpr_empty: "ParseVarTypeExpr schema [] vt = Some (None, vt)"
  by (simp add: ParseVarTypeExpr.simps)

lemma ParseVarTypeExpr_list:
  assumes "isListExpr expr"
  shows "ParseVarTypeExpr schema expr (VarType e0 t0 l0 m0 s0) =
     (case ParseVarTypeExpr schema (drop 2 expr) zeroVarType of
        None \<Rightarrow> None
      | Some (err, elem) \<Rightarrow>
          Some (err, VarType expr T_List (Some (VarListType (Some elem))) m0 s0))"
proof -
  have t: "exprDataType expr = T_List" using assms by (simp add: exprDataType_List)
  have p: "TrimPrefix expr ''[]'' = drop 2 expr"
    using assms by (simp add: TrimPrefix_def isListExpr_def numeral_2_eq_2)
  have ne: "expr \<noteq> []" using assms by (auto simp: isListExpr_iff)
  show ?thesis
    by (subst ParseVarTypeExpr.simps)
       (simp add: t p ne Let_def cong: option.case_cong prod.case_cong)
qed

lemma ParseVarTypeExpr_map:
  assumes "exprDataType expr = T_Map"
  shows "ParseVarTypeExpr schema expr (VarType e0 t0 l0 m0 s0) =
     (case parseMapExpr expr of
        None \<Rightarrow> None
      | Some (Inl err) \<Rightarrow> Some (Some err, VarType expr T_Map l0 m0 s0)
      | Some (Inr (key, value)) \<Rightarrow>
          (case DataTypeFromString key of
             None \<Rightarrow> Some (Some (ErrInvalidMapKeyType key expr), VarType expr T_Map l0 m0 s0)
           | Some keyDataType \<Rightarrow>
               (case ParseVarTypeExpr schema value zeroVarType of
                  None \<Rightarrow> None
                | Some (err, val) \<Rightarrow>
                    Some (err, VarType expr T_Map l0
                            (Some (VarMapType keyDataType (Some val))) s0))))"
proof -
  have ne: "expr \<noteq> []"
    using assms by (auto simp: exprDataType_def DataTypeFromString_cases isListExpr_iff isMapExpr_iff split: option.splits if_splits)
  show ?thesis
    by (subst ParseVarTypeExpr.simps)
       (simp add: assms ne Let_def cong: option.case_cong sum.case_cong prod.case_cong)
qed

lemma ParseVarTypeExpr_struct:
  assumes "expr \<noteq> []" and "exprDataType expr = T_Unknown"
  shows "ParseVarTypeExpr schema expr (VarType e0 t0 l0 m0 s0) =
     (case getMessageType schema expr of
        None \<Rightarrow> None
      | Some (msg, ok) \<Rightarrow>
          if \<not> ok \<or> msg = None
          then Some (Some (ErrInvalidStruct expr), VarType expr T_Unknown l0 m0 s0)
          else Some (None, VarType expr T_Struct l0 m0 (Some (VarStructType expr msg))))"
  by (subst ParseVarTypeExpr.simps)
     (simp add: assms Let_def split: option.splits prod.splits)

lemma ParseVarTypeExpr_basic:
  assumes "expr \<noteq> []" and "exprDataType expr = dt"
    and "dt \<noteq> T_List" and "dt \<noteq> T_Map" and "dt \<noteq> T_Unknown"
  shows "ParseVarTypeExpr schema expr (VarType e0 t0 l0 m0 s0) =
           Some (None, VarType expr dt l0 m0 s0)"
  by (subst ParseVarTypeExpr.simps) (simp add: assms Let_def)

lemma expr_cases [case_names empty list map struct basic]:
  obtains "expr = []"
  | "isListExpr expr"
  | "expr \<noteq> []" and "exprDataType expr = T_Map"
  | "expr \<noteq> []" and "exprDataType expr = T_Unknown"
  | "expr \<noteq> []" and "exprDataType expr \<noteq> T_List" and "exprDataType expr \<noteq> T_Map"
      and "exprDataType expr \<noteq> T_Unknown"
proof -
  have "isListExpr expr \<Longrightarrow> expr \<noteq> []" by (auto simp: isListExpr_iff)
  then show ?thesis using that exprDataType_List [of expr] by blast
qed

section \<open>The parser returns, and its results follow its branches\<close>

lemma parseMapExpr_returns: "\<exists>r. parseMapExpr expr = Some r"
proof (cases "isMapExpr expr")
  case True
  then obtain rest where "expr = ''map<'' @ rest" by (auto simp: isMapExpr_iff)
  then show ?thesis using parseMapExpr_map [of rest] by blast
next
  case False
  then show ?thesis by (simp add: parseMapExpr_not_map)
qed

lemma parseMapExpr_Inr:
  assumes "parseMapExpr expr = Some (Inr (key, value))"
  shows "\<exists>rest. expr = ''map<'' @ rest \<and> rest \<noteq> [] \<and> last rest = CHR ''>''
           \<and> CHR '','' \<in> set (butlast rest)
           \<and> key = takeWhile (\<lambda>x. x \<noteq> CHR '','') (butlast rest)
           \<and> value = tl (dropWhile (\<lambda>x. x \<noteq> CHR '','') (butlast rest))
           \<and> isValidVarKeyType key"
proof -
  have "isMapExpr expr"
    using assms parseMapExpr_not_map [of expr] by auto
  then obtain rest where e: "expr = ''map<'' @ rest" by (auto simp: isMapExpr_iff)
  show ?thesis
    using assms unfolding e parseMapExpr_map
    by (simp add: Let_def split: if_splits)
qed

lemma parseMapExpr_key_known:
  assumes "parseMapExpr expr = Some (Inr (key, value))"
  shows "\<exists>dt. DataTypeFromString key = Some dt \<and> dt \<in> set VarKeyDataTypes"
  using parseMapExpr_Inr [OF assms] isValidVarKeyType_ex by blast

lemma findMessage_result:
  assumes "findMessage msgs e = Some (msg, ok)"
  shows "(msg = None \<and> \<not> ok \<and> (\<forall>m. Some m \<in> set msgs \<longrightarrow> Message.Name m \<noteq> e))
       \<or> (\<exists>m. msg = Some m \<and> ok \<and> Message.Name m = e \<and> Some m \<in> set msgs)"
  using assms
proof (induction msgs e rule: findMessage.induct)
  case (3 m ms e)
  then show ?case by (cases "e = Message.Name m") auto
qed simp_all

lemma findMessage_valid:
  "findMessage (map Some ms) e =
     Some (case find (\<lambda>m. Message.Name m = e) ms of
             None \<Rightarrow> (None, False)
           | Some m \<Rightarrow> (Some m, True))"
  by (induction ms) auto

lemma validCatalog_map:
  assumes "validCatalog schema"
  shows "\<exists>s ms. schema = Some s \<and> Messages s = map Some ms"
proof -
  obtain s where s: "schema = Some s" and a: "list_all (\<lambda>msg. msg \<noteq> None) (Messages s)"
    using assms by (auto simp: validCatalog_def split: option.splits)
  have "Messages s = map Some (map the (Messages s))"
    using a by (induction "Messages s" arbitrary: s) (auto simp: list_all_iff map_idI)
  then show ?thesis using s by blast
qed

lemma getMessageType_returns:
  assumes "validCatalog schema"
  shows "\<exists>r. getMessageType schema e = Some r"
proof -
  obtain s ms where "schema = Some s" and "Messages s = map Some ms"
    using validCatalog_map [OF assms] by blast
  then show ?thesis by (simp add: getMessageType_def findMessage_valid)
qed

lemma getMessageType_result:
  assumes "getMessageType schema e = Some (msg, ok)"
  shows "(msg = None \<and> \<not> ok) \<or> (\<exists>m. msg = Some m \<and> ok \<and> Message.Name m = e)"
proof -
  obtain s where "schema = Some s" and "findMessage (Messages s) e = Some (msg, ok)"
    using assms by (auto simp: getMessageType_def split: option.splits)
  then show ?thesis using findMessage_result [of "Messages s" e msg ok] by blast
qed

text \<open>
  Rule induction over the calls of the parser that return: a property of the expression, the
  receiver and the result holds for every returning call when each branch preserves it.
\<close>

lemma ParseVarTypeExpr_rule
  [consumes 1, case_names empty list mapErr map structErr struct basic]:
  assumes run: "ParseVarTypeExpr schema expr vt = Some r"
    and empty: "\<And>vt. P [] vt (None, vt)"
    and list: "\<And>expr e0 t0 l0 m0 s0 err elem.
        isListExpr expr \<Longrightarrow>
        ParseVarTypeExpr schema (drop 2 expr) zeroVarType = Some (err, elem) \<Longrightarrow>
        P (drop 2 expr) zeroVarType (err, elem) \<Longrightarrow>
        P expr (VarType e0 t0 l0 m0 s0)
          (err, VarType expr T_List (Some (VarListType (Some elem))) m0 s0)"
    and mapErr: "\<And>expr e0 t0 l0 m0 s0 err.
        expr \<noteq> [] \<Longrightarrow> exprDataType expr = T_Map \<Longrightarrow>
        parseMapExpr expr = Some (Inl err) \<Longrightarrow>
        P expr (VarType e0 t0 l0 m0 s0) (Some err, VarType expr T_Map l0 m0 s0)"
    and map: "\<And>expr e0 t0 l0 m0 s0 key value keyDataType err val.
        expr \<noteq> [] \<Longrightarrow> exprDataType expr = T_Map \<Longrightarrow>
        parseMapExpr expr = Some (Inr (key, value)) \<Longrightarrow>
        DataTypeFromString key = Some keyDataType \<Longrightarrow>
        ParseVarTypeExpr schema value zeroVarType = Some (err, val) \<Longrightarrow>
        P value zeroVarType (err, val) \<Longrightarrow>
        P expr (VarType e0 t0 l0 m0 s0)
          (err, VarType expr T_Map l0 (Some (VarMapType keyDataType (Some val))) s0)"
    and structErr: "\<And>expr e0 t0 l0 m0 s0.
        expr \<noteq> [] \<Longrightarrow> exprDataType expr = T_Unknown \<Longrightarrow>
        getMessageType schema expr = Some (None, False) \<Longrightarrow>
        P expr (VarType e0 t0 l0 m0 s0)
          (Some (ErrInvalidStruct expr), VarType expr T_Unknown l0 m0 s0)"
    and struct: "\<And>expr e0 t0 l0 m0 s0 msg.
        expr \<noteq> [] \<Longrightarrow> exprDataType expr = T_Unknown \<Longrightarrow>
        getMessageType schema expr = Some (Some msg, True) \<Longrightarrow>
        P expr (VarType e0 t0 l0 m0 s0)
          (None, VarType expr T_Struct l0 m0 (Some (VarStructType expr (Some msg))))"
    and basic: "\<And>expr e0 t0 l0 m0 s0.
        expr \<noteq> [] \<Longrightarrow> exprDataType expr \<noteq> T_List \<Longrightarrow> exprDataType expr \<noteq> T_Map \<Longrightarrow>
        exprDataType expr \<noteq> T_Unknown \<Longrightarrow>
        P expr (VarType e0 t0 l0 m0 s0) (None, VarType expr (exprDataType expr) l0 m0 s0)"
  shows "P expr vt r"
  using run
proof (induction "length expr" arbitrary: expr vt r rule: less_induct)
  case less
  obtain e0 t0 l0 m0 s0 where vt: "vt = VarType e0 t0 l0 m0 s0" by (cases vt)
  note run = less.prems [unfolded vt]
  show ?case
  proof (cases expr rule: expr_cases)
    case empty
    then have "r = (None, vt)" using run by (simp add: ParseVarTypeExpr_empty vt)
    then show ?thesis using empty assms(2) by simp
  next
    case list
    then have shorter: "length (drop 2 expr) < length expr" by (auto simp: isListExpr_iff)
    obtain err elem
      where rec: "ParseVarTypeExpr schema (drop 2 expr) zeroVarType = Some (err, elem)"
        and r: "r = (err, VarType expr T_List (Some (VarListType (Some elem))) m0 s0)"
      using run unfolding ParseVarTypeExpr_list [OF list] by (auto split: option.splits)
    show ?thesis
      unfolding vt r using assms(3) [OF list rec less.hyps [OF shorter rec]] .
  next
    case map
    obtain pm where pm: "parseMapExpr expr = Some pm" using parseMapExpr_returns by blast
    show ?thesis
    proof (cases pm)
      case (Inl err)
      have "r = (Some err, VarType expr T_Map l0 m0 s0)"
        using run pm Inl unfolding ParseVarTypeExpr_map [OF map(2)] by simp
      then show ?thesis unfolding vt using mapErr [OF map] pm Inl by simp
    next
      case (Inr kv)
      obtain key "value" where kv: "kv = (key, value)" by (cases kv)
      have pm': "parseMapExpr expr = Some (Inr (key, value))" using pm Inr kv by simp
      obtain kd where kd: "DataTypeFromString key = Some kd"
        using parseMapExpr_key_known [OF pm'] by blast
      have shorter: "length value < length expr" using parseMapExpr_value_shorter [OF pm'] .
      obtain err val
        where rec: "ParseVarTypeExpr schema value zeroVarType = Some (err, val)"
          and r: "r = (err, VarType expr T_Map l0 (Some (VarMapType kd (Some val))) s0)"
        using run pm' kd unfolding ParseVarTypeExpr_map [OF map(2)]
        by (auto split: option.splits)
      show ?thesis
        unfolding vt r using assms(5) [OF map pm' kd rec less.hyps [OF shorter rec]] .
    qed
  next
    case struct
    obtain msg ok where g: "getMessageType schema expr = Some (msg, ok)"
      using run unfolding ParseVarTypeExpr_struct [OF struct] by (auto split: option.splits)
    show ?thesis
    proof (cases "ok")
      case False
      then have g': "getMessageType schema expr = Some (None, False)"
        using g getMessageType_result [OF g] by auto
      then have "r = (Some (ErrInvalidStruct expr), VarType expr T_Unknown l0 m0 s0)"
        using run unfolding ParseVarTypeExpr_struct [OF struct] by simp
      then show ?thesis unfolding vt using structErr [OF struct g'] by simp
    next
      case True
      then obtain m where g': "getMessageType schema expr = Some (Some m, True)"
        using g getMessageType_result [OF g] by auto
      then have "r = (None, VarType expr T_Struct l0 m0 (Some (VarStructType expr (Some m))))"
        using run unfolding ParseVarTypeExpr_struct [OF struct] by simp
      then show ?thesis unfolding vt using assms(7) [OF struct g'] by simp
    qed
  next
    case basic
    have "r = (None, VarType expr (exprDataType expr) l0 m0 s0)"
      using run unfolding ParseVarTypeExpr_basic [OF basic(1) refl basic(2,3,4)] by simp
    then show ?thesis unfolding vt using assms(8) [OF basic] by simp
  qed
qed

text \<open>On a catalog without \<open>nil\<close> the parser returns.\<close>

lemma ParseVarTypeExpr_returns:
  assumes "validCatalog schema"
  shows "\<exists>r. ParseVarTypeExpr schema expr vt = Some r"
proof (induction "length expr" arbitrary: expr vt rule: less_induct)
  case less
  obtain e0 t0 l0 m0 s0 where vt: "vt = VarType e0 t0 l0 m0 s0" by (cases vt)
  show ?case
  proof (cases expr rule: expr_cases)
    case empty
    then show ?thesis by (simp add: ParseVarTypeExpr_empty)
  next
    case list
    then have "length (drop 2 expr) < length expr" by (auto simp: isListExpr_iff)
    from less [OF this, of zeroVarType] show ?thesis
      unfolding vt ParseVarTypeExpr_list [OF list] by auto
  next
    case map
    obtain pm where pm: "parseMapExpr expr = Some pm" using parseMapExpr_returns by blast
    show ?thesis
    proof (cases pm)
      case (Inl err)
      then show ?thesis unfolding vt ParseVarTypeExpr_map [OF map(2)] using pm by simp
    next
      case (Inr kv)
      obtain key "value" where kv: "kv = (key, value)" by (cases kv)
      have pm': "parseMapExpr expr = Some (Inr (key, value))" using pm Inr kv by simp
      have "length value < length expr" using parseMapExpr_value_shorter [OF pm'] .
      from less [OF this, of zeroVarType] show ?thesis
        unfolding vt ParseVarTypeExpr_map [OF map(2)] using pm'
        by (auto split: option.splits)
    qed
  next
    case struct
    obtain g where "getMessageType schema expr = Some g"
      using getMessageType_returns [OF assms] by blast
    then show ?thesis
      unfolding vt ParseVarTypeExpr_struct [OF struct] by (auto split: prod.splits)
  next
    case basic
    show ?thesis
      unfolding vt ParseVarTypeExpr_basic [OF basic(1) refl basic(2,3,4)] by simp
  qed
qed

lemma parseMapExpr_Inl:
  assumes "parseMapExpr expr = Some (Inl err)"
  shows "sublist (offending err) expr \<and>
         (err = ErrInvalidMapExpr expr \<or> (\<exists>x. err = ErrInvalidMapSyntax x)
            \<or> (\<exists>k x. err = ErrInvalidMapKey k x))"
proof (cases "isMapExpr expr")
  case False
  then show ?thesis using assms by (auto simp: parseMapExpr_not_map)
next
  case True
  then obtain rest where e: "expr = ''map<'' @ rest" by (auto simp: isMapExpr_iff)
  have s1: "sublist (''<'' @ rest) (''map<'' @ rest)"
    unfolding sublist_def by (rule exI [of _ "''map''"], rule exI [of _ "[]"]) simp
  have s2: "sublist (butlast rest) (''map<'' @ rest)" if "rest \<noteq> []"
  proof -
    have "''map<'' @ rest = ''map<'' @ butlast rest @ [last rest]" using that by simp
    then show ?thesis unfolding sublist_def by blast
  qed
  show ?thesis
    using assms s1 s2 unfolding e parseMapExpr_map
    by (auto simp: Let_def split: if_splits)
qed

lemma parseMapExpr_shape:
  assumes "parseMapExpr expr = Some (Inr (key, value))"
  shows "expr = ''map<'' @ key @ '','' @ value @ ''>''"
proof -
  obtain rest where e: "expr = ''map<'' @ rest" and ne: "rest \<noteq> []"
    and l: "last rest = CHR ''>''" and c: "CHR '','' \<in> set (butlast rest)"
    and k: "key = takeWhile (\<lambda>x. x \<noteq> CHR '','') (butlast rest)"
    and v: "value = tl (dropWhile (\<lambda>x. x \<noteq> CHR '','') (butlast rest))"
    using parseMapExpr_Inr [OF assms] by blast
  let ?d = "dropWhile (\<lambda>x. x \<noteq> CHR '','') (butlast rest)"
  have "?d \<noteq> []" using c by simp
  moreover have "hd ?d = CHR '',''" using c hd_dropWhile [of "\<lambda>x. x \<noteq> CHR '',''" "butlast rest"] by simp
  ultimately have d: "?d = CHR '','' # value" unfolding v by (cases ?d) auto
  have "butlast rest = key @ ?d" unfolding k by simp
  then have "butlast rest = key @ '','' @ value" using d by simp
  moreover have "rest = butlast rest @ ''>''" using ne l by (metis append_butlast_last_id)
  ultimately show ?thesis unfolding e by simp
qed

section \<open>Serialising a parsed expression; the text an error carries\<close>

lemma exprDataType_not_Struct: "exprDataType expr \<noteq> T_Struct"
  using DataTypeFromString_not_Struct [of expr]
  by (auto simp: exprDataType_def split: option.splits)

lemma sublist_trans: "sublist xs ys \<Longrightarrow> sublist ys zs \<Longrightarrow> sublist xs zs"
  by (rule sublist_order.order.trans)

lemma buildVarTypeExpr_zero: "buildVarTypeExpr zeroVarType acc = Some ''<unknown>''"
  by (simp add: zeroVarType_def)

lemma buildVarTypeExpr_after_parse:
  assumes "ParseVarTypeExpr schema expr vt = Some r"
  shows "fst r = None \<longrightarrow> expr \<noteq> [] \<or> vt = zeroVarType \<longrightarrow>
           (\<forall>acc. \<exists>c. buildVarTypeExpr (snd r) acc = Some c)"
  using assms
proof (induction rule: ParseVarTypeExpr_rule)
  case (empty vt)
  then show ?case by (simp add: buildVarTypeExpr_zero)
next
  case (list expr e0 t0 l0 m0 s0 err elem)
  then show ?case by (auto split: option.splits)
next
  case (map expr e0 t0 l0 m0 s0 key "value" keyDataType err val)
  then show ?case by (auto split: option.splits)
next
  case (basic expr e0 t0 l0 m0 s0)
  then show ?case using exprDataType_not_Struct [of expr] by simp
qed simp_all

text \<open>
  The error of a failed parse is the error of one sub-expression: a non-empty contiguous
  part of the expression that is either looked up as a message name in vain, or rejected by
  \<open>parseMapExpr\<close>.
\<close>

lemma ParseVarTypeExpr_error_origin:
  assumes "ParseVarTypeExpr schema expr vt = Some r"
  shows "\<forall>e. fst r = Some e \<longrightarrow>
           (\<exists>sub. sub \<noteq> [] \<and> sublist sub expr \<and>
              (e = ErrInvalidStruct sub \<or> parseMapExpr sub = Some (Inl e)))"
  using assms
proof (induction rule: ParseVarTypeExpr_rule)
  case (list expr e0 t0 l0 m0 s0 err elem)
  then show ?case using sublist_trans [OF _ sublist_drop [of 2 expr]] by fastforce
next
  case (mapErr expr e0 t0 l0 m0 s0 err)
  then show ?case by (auto intro!: exI [of _ expr])
next
  case (map expr e0 t0 l0 m0 s0 key "value" keyDataType err val)
  have "expr = (''map<'' @ key @ '','') @ value @ ''>''"
    using parseMapExpr_shape [OF map(3)] by simp
  then have "sublist value expr" unfolding sublist_def by blast
  then show ?case using map(6) sublist_trans by fastforce
next
  case (structErr expr e0 t0 l0 m0 s0)
  then show ?case by (auto intro!: exI [of _ expr])
qed simp_all

lemma ParseVarTypeExpr_offending:
  assumes "ParseVarTypeExpr schema expr vt = Some r"
  shows "\<forall>e. fst r = Some e \<longrightarrow> sublist (offending e) expr"
proof (intro allI impI)
  fix e
  assume "fst r = Some e"
  then obtain sub where s: "sublist sub expr"
    and o: "e = ErrInvalidStruct sub \<or> parseMapExpr sub = Some (Inl e)"
    using ParseVarTypeExpr_error_origin [OF assms] by blast
  from o show "sublist (offending e) expr"
  proof
    assume "e = ErrInvalidStruct sub"
    then show ?thesis using s by simp
  next
    assume "parseMapExpr sub = Some (Inl e)"
    then have "sublist (offending e) sub" using parseMapExpr_Inl by blast
    then show ?thesis using s sublist_trans by blast
  qed
qed

lemma slice_to_butlast:
  "s \<noteq> [] \<Longrightarrow> slice_to s (int (length s) - 1) = Some (butlast s)"
  unfolding slice_to_def slice_def by (cases s rule: rev_cases) auto

lemma Error_offending: "sublist (offending e) (Error e)"
proof (cases e)
  case (ErrInvalidMapKeyType key expr)
  have "Error e = (''schema error: invalid map key type '' @ quoted key @ '' for expr '' @ [CHR 0x27])
          @ expr @ [CHR 0x27]"
    unfolding ErrInvalidMapKeyType by (simp add: quoted_def)
  then show ?thesis unfolding ErrInvalidMapKeyType sublist_def by (metis offending.simps(4))
next
  case (ErrInvalidStruct structExpr)
  have "Error e = (''schema error: invalid struct/message type '' @ [CHR 0x27]) @ structExpr @ [CHR 0x27]"
    unfolding ErrInvalidStruct by (simp add: quoted_def)
  then show ?thesis unfolding ErrInvalidStruct sublist_def by (metis offending.simps(5))
next
  case (ErrInvalidMapExpr expr)
  have "Error e = (''schema error: invalid map expr for '' @ [CHR 0x27]) @ expr @ [CHR 0x27]"
    unfolding ErrInvalidMapExpr by (simp add: quoted_def)
  then show ?thesis unfolding ErrInvalidMapExpr sublist_def by (metis offending.simps(6))
next
  case (ErrInvalidMapSyntax expr)
  have "Error e = (''schema error: invalid map syntax for '' @ [CHR 0x27]) @ expr @ [CHR 0x27]"
    unfolding ErrInvalidMapSyntax by (simp add: quoted_def)
  then show ?thesis unfolding ErrInvalidMapSyntax sublist_def by (metis offending.simps(7))
next
  case (ErrInvalidMapKey key expr)
  have "Error e = (''schema error: invalid map key '' @ quoted key @ '' for '' @ [CHR 0x27])
          @ expr @ [CHR 0x27]"
    unfolding ErrInvalidMapKey by (simp add: quoted_def)
  then show ?thesis unfolding ErrInvalidMapKey sublist_def by (metis offending.simps(8))
qed simp_all

lemma UnmarshalJSON_returns: "\<exists>r. UnmarshalJSON b t = Some r"
proof (cases "length b \<le> 2")
  case True
  then show ?thesis by (simp add: UnmarshalJSON_def)
next
  case False
  then have ne: "b \<noteq> []" by auto
  have s1: "slice b 0 1 = Some [hd b]" using ne unfolding slice_def by (cases b) auto
  have s2: "slice_from b (int (length b) - 1) = Some [last b]" using ne by (rule slice_from_last)
  have s3: "slice_from b 1 = Some (tl b)" using False by (simp add: slice_from_eq drop_Suc)
  have "tl b \<noteq> []" using False by (cases b) auto
  then have s4: "slice_to (tl b) (int (length (tl b)) - 1) = Some (butlast (tl b))"
    by (rule slice_to_butlast)
  show ?thesis
    using False s1 s2 s3 s4 by (simp add: UnmarshalJSON_def Let_def)
qed

lemma ParseVarTypeExpr_no_key_type_error:
  assumes "ParseVarTypeExpr schema expr vt = Some r"
  shows "\<forall>k x. fst r \<noteq> Some (ErrInvalidMapKeyType k x)"
  using assms
proof (induction rule: ParseVarTypeExpr_rule)
  case (mapErr expr e0 t0 l0 m0 s0 err)
  then show ?case using parseMapExpr_Inl [of expr err] by auto
qed simp_all

section \<open>Lookups in the registry\<close>

lemma exprDataType_known:
  "DataTypeFromString expr = Some dt \<Longrightarrow> exprDataType expr = dt"
  by (simp add: exprDataType_def)

lemma exprDataType_unknown:
  "DataTypeFromString expr = None \<Longrightarrow> \<not> isListExpr expr \<Longrightarrow> \<not> isMapExpr expr \<Longrightarrow>
   exprDataType expr = T_Unknown"
  by (simp add: exprDataType_def)

lemma DataTypeFromString_nonempty: "DataTypeFromString s = Some dt \<Longrightarrow> s \<noteq> []"
  unfolding DataTypeFromString_cases by auto

section \<open>Accepted map expressions\<close>

lemma isValidVarKeyType_iff:
  "isValidVarKeyType key \<longleftrightarrow>
     key \<in> {''string'', ''uint'', ''uint8'', ''uint16'', ''uint32'', ''uint64'',
             ''int'', ''int8'', ''int16'', ''int32'', ''int64''}"
proof
  assume "isValidVarKeyType key"
  then obtain dt where "DataTypeFromString key = Some dt" and "dt \<in> set VarKeyDataTypes"
    unfolding isValidVarKeyType_ex by (elim exE conjE)
  then show "key \<in> {''string'', ''uint'', ''uint8'', ''uint16'', ''uint32'', ''uint64'',
             ''int'', ''int8'', ''int16'', ''int32'', ''int64''}"
    by (rule VarKeyDataTypes_spelling)
next
  assume "key \<in> {''string'', ''uint'', ''uint8'', ''uint16'', ''uint32'', ''uint64'',
             ''int'', ''int8'', ''int16'', ''int32'', ''int64''}"
  then show "isValidVarKeyType key" by (rule spelling_VarKeyDataTypes)
qed

lemma isValidVarKeyType_no_comma:
  assumes "isValidVarKeyType key"
  shows "CHR '','' \<notin> set key"
proof -
  obtain dt where "DataTypeFromString key = Some dt"
    using assms unfolding isValidVarKeyType_ex by blast
  then show ?thesis by (rule DataTypeFromString_no_comma)
qed

lemma parseMapExpr_accepts:
  assumes "isValidVarKeyType key"
  shows "parseMapExpr (''map<'' @ key @ '','' @ value @ ''>'') = Some (Inr (key, value))"
proof -
  have nc: "CHR '','' \<notin> set key" using assms by (rule isValidVarKeyType_no_comma)
  let ?rest = "key @ '','' @ value @ ''>''"
  have b: "butlast ?rest = key @ '','' @ value"
    by (simp add: butlast_append)
  have l: "last ?rest = CHR ''>''" by simp
  have k: "\<And>x. x \<in> set key \<Longrightarrow> x \<noteq> CHR '',''" using nc by auto
  have tw: "takeWhile (\<lambda>x. x \<noteq> CHR '','') (key @ '','' @ value) = key"
    using k by (simp add: takeWhile_append2)
  have "dropWhile (\<lambda>x. x \<noteq> CHR '','') (key @ '','' @ value) = '','' @ value"
    using k by (simp add: dropWhile_append2)
  then have dw: "tl (dropWhile (\<lambda>x. x \<noteq> CHR '','') (key @ '','' @ value)) = value" by simp
  show ?thesis
    unfolding parseMapExpr_map [of ?rest] b
    using l tw dw assms by (simp add: Let_def)
qed

lemma ParseVarTypeExpr_Type_Map:
  assumes "ParseVarTypeExpr schema expr vt = Some (None, vt')"
    and "expr \<noteq> []" and "Type vt' = T_Map"
  shows "\<exists>key value keyDataType val.
           parseMapExpr expr = Some (Inr (key, value))
         \<and> DataTypeFromString key = Some keyDataType
         \<and> ParseVarTypeExpr schema value zeroVarType = Some (None, val)
         \<and> Map vt' = Some (VarMapType keyDataType (Some val))"
proof -
  obtain e0 t0 l0 m0 s0 where vt: "vt = VarType e0 t0 l0 m0 s0" by (cases vt)
  show ?thesis
  proof (cases expr rule: expr_cases)
    case empty
    then show ?thesis using assms(2) by simp
  next
    case list
    then show ?thesis
      using assms(1,3) unfolding vt ParseVarTypeExpr_list [OF list]
      by (auto split: option.splits)
  next
    case map
    then show ?thesis
      using assms(1) unfolding vt ParseVarTypeExpr_map [OF map(2)]
      by (auto split: option.splits sum.splits)
  next
    case struct
    then show ?thesis
      using assms(1,3) unfolding vt ParseVarTypeExpr_struct [OF struct]
      by (auto split: option.splits prod.splits if_splits)
  next
    case basic
    then show ?thesis
      using assms(1,3) unfolding vt ParseVarTypeExpr_basic [OF basic(1) refl basic(2,3,4)]
      by auto
  qed
qed

section \<open>Errors of the map branch\<close>

lemma exprDataType_map_prefix: "exprDataType (''map<'' @ rest) = T_Map"
proof -
  have "CHR ''<'' \<in> set (''map<'' @ rest)" by simp
  then have n: "DataTypeFromString (''map<'' @ rest) = None"
    using DataTypeFromString_no_angle [of "''map<'' @ rest"] by (cases "DataTypeFromString (''map<'' @ rest)") auto
  have "\<not> isListExpr (''map<'' @ rest)" by (simp add: isListExpr_iff)
  moreover have "isMapExpr (''map<'' @ rest)" unfolding isMapExpr_iff by blast
  ultimately show ?thesis using n unfolding exprDataType_def by simp
qed

lemma Parse_map_error:
  assumes "parseMapExpr (''map<'' @ rest) = Some (Inl err)"
  shows "Parse schema (VarType (''map<'' @ rest) t0 l0 m0 s0) =
           Some (Some err, VarType (''map<'' @ rest) T_Map l0 m0 s0)"
proof -
  have "ParseVarTypeExpr schema (''map<'' @ rest) (VarType (''map<'' @ rest) t0 l0 m0 s0) =
          Some (Some err, VarType (''map<'' @ rest) T_Map l0 m0 s0)"
    unfolding ParseVarTypeExpr_map [OF exprDataType_map_prefix] using assms by simp
  then show ?thesis by (simp add: Parse_def)
qed

section \<open>The receiver after a parse\<close>

lemma ParseVarTypeExpr_Expr:
  assumes "ParseVarTypeExpr schema expr vt = Some r"
  shows "expr \<noteq> [] \<longrightarrow> Expr (snd r) = expr"
  using assms by (induction rule: ParseVarTypeExpr_rule) simp_all

section \<open>Canonical text of trees without unknown nodes\<close>

lemma not_concrete_zero: "\<not> concrete zeroVarType"
  by (simp add: zeroVarType_def)

lemma exprDataType_spelling:
  assumes "exprDataType expr \<noteq> T_List" and "exprDataType expr \<noteq> T_Map"
    and "exprDataType expr \<noteq> T_Unknown"
  shows "DataTypeToString (exprDataType expr) = expr"
proof (cases "DataTypeFromString expr")
  case None
  then show ?thesis using assms by (simp add: exprDataType_def split: if_splits)
next
  case (Some dt)
  then show ?thesis using DataTypeToString_FromString [OF Some] by (simp add: exprDataType_def)
qed

lemma buildVarTypeExpr_concrete:
  assumes "ParseVarTypeExpr schema expr vt = Some r"
  shows "fst r = None \<longrightarrow> expr \<noteq> [] \<longrightarrow> concrete (snd r) \<longrightarrow>
           buildVarTypeExpr (snd r) [] = Some expr"
  using assms
proof (induction rule: ParseVarTypeExpr_rule)
  case (list expr e0 t0 l0 m0 s0 err elem)
  show ?case
  proof (intro impI)
    assume ok: "fst (err, VarType expr T_List (Some (VarListType (Some elem))) m0 s0) = None"
      and c: "concrete (snd (err, VarType expr T_List (Some (VarListType (Some elem))) m0 s0))"
    have ce: "concrete elem" using c by simp
    have "drop 2 expr \<noteq> []"
    proof
      assume "drop 2 expr = []"
      then have "elem = zeroVarType" using list(2) by (simp add: ParseVarTypeExpr_empty)
      then show False using ce not_concrete_zero by blast
    qed
    then have "buildVarTypeExpr elem [] = Some (drop 2 expr)" using list(3) ok ce by simp
    moreover have "''[]'' @ drop 2 expr = expr" using list(1) by (auto simp: isListExpr_iff)
    ultimately show "buildVarTypeExpr
        (snd (err, VarType expr T_List (Some (VarListType (Some elem))) m0 s0)) [] = Some expr"
      by simp
  qed
next
  case (map expr e0 t0 l0 m0 s0 key "value" keyDataType err val)
  show ?case
  proof (intro impI)
    assume ok: "fst (err, VarType expr T_Map l0 (Some (VarMapType keyDataType (Some val))) s0) = None"
      and c: "concrete (snd (err, VarType expr T_Map l0 (Some (VarMapType keyDataType (Some val))) s0))"
    have cv: "concrete val" using c by simp
    have "value \<noteq> []"
    proof
      assume "value = []"
      then have "val = zeroVarType" using map(5) by (simp add: ParseVarTypeExpr_empty)
      then show False using cv not_concrete_zero by blast
    qed
    then have "buildVarTypeExpr val [] = Some value" using map(6) ok cv by simp
    moreover have "expr = ''map<'' @ key @ '','' @ value @ ''>''"
      using parseMapExpr_shape [OF map(3)] .
    moreover have "DataType_String keyDataType = key"
      using DataTypeToString_FromString [OF map(4)] by (simp add: DataType_String_def)
    ultimately show "buildVarTypeExpr
        (snd (err, VarType expr T_Map l0 (Some (VarMapType keyDataType (Some val))) s0)) [] = Some expr"
      by simp
  qed
next
  case (basic expr e0 t0 l0 m0 s0)
  then show ?case
    using exprDataType_spelling [of expr] exprDataType_not_Struct [of expr]
    by (simp add: DataType_String_def)
qed simp_all

lemma ParseVarTypeExpr_again:
  assumes "ParseVarTypeExpr schema expr vt = Some (err, vt')"
  shows "ParseVarTypeExpr schema expr vt' = Some (err, vt')"
proof -
  obtain e0 t0 l0 m0 s0 where vt: "vt = VarType e0 t0 l0 m0 s0" by (cases vt)
  obtain e1 t1 l1 m1 s1 where vt': "vt' = VarType e1 t1 l1 m1 s1" by (cases vt')
  show ?thesis
  proof (cases expr rule: expr_cases)
    case empty
    then show ?thesis using assms by (simp add: ParseVarTypeExpr_empty)
  next
    case list
    then show ?thesis
      using assms unfolding vt vt' ParseVarTypeExpr_list [OF list]
      by (auto split: option.splits)
  next
    case map
    then show ?thesis
      using assms unfolding vt vt' ParseVarTypeExpr_map [OF map(2)]
      by (auto split: option.splits sum.splits)
  next
    case struct
    then show ?thesis
      using assms unfolding vt vt' ParseVarTypeExpr_struct [OF struct]
      by (auto split: option.splits prod.splits if_splits)
  next
    case basic
    then show ?thesis
      using assms unfolding vt vt' ParseVarTypeExpr_basic [OF basic(1) refl basic(2,3,4)]
      by auto
  qed
qed

lemma Parse_fixed_point_when_concrete:
  assumes "Parse schema t = Some (None, t')" and "concrete t'"
  shows "Expr t' = Expr t \<and> Parse schema t' = Some (None, t')"
proof -
  have ne: "Expr t \<noteq> []" using assms(1) by (auto simp: Parse_def split: if_splits)
  obtain v c where p: "ParseVarTypeExpr schema (Expr t) t = Some (None, v)"
    and b: "buildVarTypeExpr v [] = Some c" and t': "t' = set_Expr c v"
    using assms(1) ne by (auto simp: Parse_def split: option.splits)
  have ev: "Expr v = Expr t" using ParseVarTypeExpr_Expr [OF p] ne by auto
  have cv: "concrete v" using assms(2) unfolding t' by (cases v) simp
  have "buildVarTypeExpr v [] = Some (Expr t)"
    using buildVarTypeExpr_concrete [OF p] ne cv by auto
  then have c: "c = Expr t" using b by simp
  have tv: "t' = v" unfolding t' c using ev by (cases v) auto
  have "ParseVarTypeExpr schema (Expr t) v = Some (None, v)"
    using ParseVarTypeExpr_again [OF p] .
  then have "Parse schema v = Some (None, v)"
    using ne ev b c tv t' by (simp add: Parse_def)
  then show ?thesis using tv ev by simp
qed

section \<open>The text of the errors of parseMapExpr\<close>

lemma parseMapExpr_error_text:
  assumes "parseMapExpr sub = Some (Inl e)"
  shows "e = ErrInvalidMapExpr sub
       \<or> e = ErrInvalidMapSyntax (drop 3 sub)
       \<or> e = ErrInvalidMapSyntax (butlast (drop 4 sub))
       \<or> e = ErrInvalidMapKey (takeWhile (\<lambda>x. x \<noteq> CHR '','') (butlast (drop 4 sub)))
               (butlast (drop 4 sub))"
proof (cases "isMapExpr sub")
  case False
  then show ?thesis using assms by (auto simp: parseMapExpr_not_map)
next
  case True
  then obtain rest where s: "sub = ''map<'' @ rest" by (auto simp: isMapExpr_iff)
  show ?thesis
    using assms unfolding s parseMapExpr_map
    by (auto simp: Let_def split: if_splits)
qed

section \<open>The claims\<close>

text \<open>
  C1. The canonical text should parse again to the same tree. The code breaks this on the
  same empty element: \<open>[]\<close> parses, its canonical text is \<open>[]<unknown>\<close>, and that text does
  not parse (its element is looked up as a message named \<open><unknown>\<close>).
\<close>

theorem canonical_text_not_a_fixed_point:
  "Parse (Some \<lparr>Messages = []\<rparr>) (VarType ''[]'' T_Unknown None None None :: unit VarType)
     = Some (None, VarType ''[]<unknown>'' T_List
         (Some (VarListType (Some (VarType [] T_Unknown None None None)))) None None)
   \<and> Parse (Some \<lparr>Messages = []\<rparr>) (VarType ''[]<unknown>'' T_Unknown None None None :: unit VarType)
     = Some (Some (ErrInvalidStruct ''<unknown>''),
         VarType ''[]<unknown>'' T_List
           (Some (VarListType (Some (VarType ''<unknown>'' T_Unknown None None None)))) None None)"
  by code_simp

text \<open>
  C2. After a successful parse the tree should hold no node of type \<open>T_Unknown\<close> and no
  list or map without a parsed element or value. The code breaks this on an empty element
  or value expression: \<open>Parse\<close> rejects an empty expression, but the recursive call of
  \<open>ParseVarTypeExpr\<close> returns \<open>nil\<close> for one and leaves the fresh element untouched.
\<close>

theorem empty_element_accepted:
  "Parse (Some \<lparr>Messages = []\<rparr>) (VarType ''[]'' T_Unknown None None None :: unit VarType)
     = Some (None, VarType ''[]<unknown>'' T_List
         (Some (VarListType (Some (VarType [] T_Unknown None None None)))) None None)
   \<and> \<not> concrete (VarType ''[]<unknown>'' T_List
         (Some (VarListType (Some (VarType [] T_Unknown None None None)))) None None
         :: unit VarType)
   \<and> Parse (Some \<lparr>Messages = []\<rparr>) (VarType ''map<string,>'' T_Unknown None None None :: unit VarType)
     = Some (None, VarType ''map<string,<unknown>>'' T_Map None
         (Some (VarMapType T_String (Some (VarType [] T_Unknown None None None)))) None)
   \<and> Parse (Some \<lparr>Messages = []\<rparr>) (VarType [] T_Unknown None None None :: unit VarType)
     = Some (Some ErrEmptyExpr, VarType [] T_Unknown None None None)"
  by code_simp

text \<open>
  C3 (as stated, refuted). \<open>map<a,b,c>\<close> does not fail with the invalid map syntax error:
  the expression is split at its first comma and the key \<open>a\<close> is rejected, which is the
  invalid map key error (the spec's \<open>InvalidMapKeyType\<close>).
\<close>

theorem three_part_map_counterexample:
  "Parse (Some \<lparr>Messages = []\<rparr>) (VarType ''map<a,b,c>'' T_Unknown None None None :: unit VarType)
     = Some (Some (ErrInvalidMapKey ''a'' ''a,b,c''), VarType ''map<a,b,c>'' T_Map None None None)
   \<and> spec_kind (ErrInvalidMapKey ''a'' ''a,b,c'') \<noteq> InvalidMapSyntax"
  by code_simp

text \<open>
  C3 (amended). For every catalog, \<open>map<string>\<close> and \<open>map<string,uint32\<close> fail with the
  invalid map syntax error and \<open>map<a,b,c>\<close> fails with the invalid map key error. In
  general an expression that starts with \<open>map<\<close> fails with the invalid map syntax error when
  it does not end in \<open>>\<close> or when there is no comma between the brackets; when there is a
  comma, the text before the first comma is the key, and a key outside the whitelist is the
  invalid map key error. Further commas are not looked at.
\<close>

theorem malformed_map_errors:
  "Parse schema (VarType ''map<string>'' t0 l0 m0 s0)
     = Some (Some (ErrInvalidMapSyntax ''string''), VarType ''map<string>'' T_Map l0 m0 s0)
   \<and> Parse schema (VarType ''map<string,uint32'' t0 l0 m0 s0)
     = Some (Some (ErrInvalidMapSyntax ''<string,uint32''),
         VarType ''map<string,uint32'' T_Map l0 m0 s0)
   \<and> Parse schema (VarType ''map<a,b,c>'' t0 l0 m0 s0)
     = Some (Some (ErrInvalidMapKey ''a'' ''a,b,c''), VarType ''map<a,b,c>'' T_Map l0 m0 s0)
   \<and> (rest = [] \<or> last rest \<noteq> CHR ''>'' \<longrightarrow>
        Parse schema (VarType (''map<'' @ rest) t0 l0 m0 s0)
          = Some (Some (ErrInvalidMapSyntax (''<'' @ rest)), VarType (''map<'' @ rest) T_Map l0 m0 s0))
   \<and> (CHR '','' \<notin> set c \<longrightarrow>
        Parse schema (VarType (''map<'' @ c @ ''>'') t0 l0 m0 s0)
          = Some (Some (ErrInvalidMapSyntax c), VarType (''map<'' @ c @ ''>'') T_Map l0 m0 s0))
   \<and> (CHR '','' \<notin> set k \<and> \<not> isValidVarKeyType k \<longrightarrow>
        Parse schema (VarType (''map<'' @ k @ '','' @ v @ ''>'') t0 l0 m0 s0)
          = Some (Some (ErrInvalidMapKey k (k @ '','' @ v)),
              VarType (''map<'' @ k @ '','' @ v @ ''>'') T_Map l0 m0 s0))
   \<and> spec_kind (ErrInvalidMapSyntax x) = InvalidMapSyntax
   \<and> spec_kind (ErrInvalidMapKey k x) = InvalidMapKeyType"
proof (intro conjI impI)
  have g1: "parseMapExpr (''map<'' @ rest) = Some (Inl (ErrInvalidMapSyntax (''<'' @ rest)))"
    if "rest = [] \<or> last rest \<noteq> CHR ''>''" for rest
    unfolding parseMapExpr_map using that by auto
  have g2: "parseMapExpr (''map<'' @ c @ ''>'') = Some (Inl (ErrInvalidMapSyntax c))"
    if "CHR '','' \<notin> set c" for c
    unfolding parseMapExpr_map [of "c @ ''>''"] using that by (simp add: butlast_append)
  have g3: "parseMapExpr (''map<'' @ k @ '','' @ v @ ''>'')
              = Some (Inl (ErrInvalidMapKey k (k @ '','' @ v)))"
    if nc: "CHR '','' \<notin> set k" and nv: "\<not> isValidVarKeyType k" for k v
  proof -
    have b: "butlast (k @ '','' @ v @ ''>'') = k @ '','' @ v" by (simp add: butlast_append)
    have kk: "\<And>x. x \<in> set k \<Longrightarrow> x \<noteq> CHR '',''" using nc by auto
    have tw: "takeWhile (\<lambda>x. x \<noteq> CHR '','') (k @ '','' @ v) = k"
      using kk by (simp add: takeWhile_append2)
    show ?thesis
      unfolding parseMapExpr_map [of "k @ '','' @ v @ ''>''"] b
      using tw nv by (simp add: Let_def)
  qed
  have "Parse schema (VarType (''map<'' @ ''string'' @ ''>'') t0 l0 m0 s0)
     = Some (Some (ErrInvalidMapSyntax ''string''), VarType (''map<'' @ ''string'' @ ''>'') T_Map l0 m0 s0)"
    by (rule Parse_map_error, rule g2) simp
  then show "Parse schema (VarType ''map<string>'' t0 l0 m0 s0)
     = Some (Some (ErrInvalidMapSyntax ''string''), VarType ''map<string>'' T_Map l0 m0 s0)"
    by simp
  have "Parse schema (VarType (''map<'' @ ''string,uint32'') t0 l0 m0 s0)
     = Some (Some (ErrInvalidMapSyntax (''<'' @ ''string,uint32'')),
         VarType (''map<'' @ ''string,uint32'') T_Map l0 m0 s0)"
    by (rule Parse_map_error, rule g1) simp
  then show "Parse schema (VarType ''map<string,uint32'' t0 l0 m0 s0)
     = Some (Some (ErrInvalidMapSyntax ''<string,uint32''),
         VarType ''map<string,uint32'' T_Map l0 m0 s0)"
    by simp
  have "\<not> isValidVarKeyType ''a''" by (simp add: isValidVarKeyType_iff)
  then have "Parse schema (VarType (''map<'' @ ''a'' @ '','' @ ''b,c'' @ ''>'') t0 l0 m0 s0)
     = Some (Some (ErrInvalidMapKey ''a'' (''a'' @ '','' @ ''b,c'')),
          VarType (''map<'' @ ''a'' @ '','' @ ''b,c'' @ ''>'') T_Map l0 m0 s0)"
    by (intro Parse_map_error g3) simp_all
  then show "Parse schema (VarType ''map<a,b,c>'' t0 l0 m0 s0)
     = Some (Some (ErrInvalidMapKey ''a'' ''a,b,c''), VarType ''map<a,b,c>'' T_Map l0 m0 s0)"
    by simp
  show "Parse schema (VarType (''map<'' @ rest) t0 l0 m0 s0)
          = Some (Some (ErrInvalidMapSyntax (''<'' @ rest)), VarType (''map<'' @ rest) T_Map l0 m0 s0)"
    if "rest = [] \<or> last rest \<noteq> CHR ''>''"
    using that by (intro Parse_map_error g1)
  show "Parse schema (VarType (''map<'' @ c @ ''>'') t0 l0 m0 s0)
          = Some (Some (ErrInvalidMapSyntax c), VarType (''map<'' @ c @ ''>'') T_Map l0 m0 s0)"
    if "CHR '','' \<notin> set c"
    using that by (intro Parse_map_error g2)
  show "Parse schema (VarType (''map<'' @ k @ '','' @ v @ ''>'') t0 l0 m0 s0)
          = Some (Some (ErrInvalidMapKey k (k @ '','' @ v)),
              VarType (''map<'' @ k @ '','' @ v @ ''>'') T_Map l0 m0 s0)"
    if "CHR '','' \<notin> set k \<and> \<not> isValidVarKeyType k"
    using that by (intro Parse_map_error g3) simp_all
  show "spec_kind (ErrInvalidMapSyntax x) = InvalidMapSyntax" by simp
  show "spec_kind (ErrInvalidMapKey k x) = InvalidMapKeyType" by simp
qed

theorem malformed_map_errors_witness:
  "last ''string,uint32'' \<noteq> CHR ''>''
   \<and> Parse (Some \<lparr>Messages = []\<rparr>) (VarType ''map<string,uint32'' T_Unknown None None None :: unit VarType)
       = Some (Some (ErrInvalidMapSyntax ''<string,uint32''),
           VarType ''map<string,uint32'' T_Map None None None)
   \<and> CHR '','' \<notin> set ''string''
   \<and> Parse (Some \<lparr>Messages = []\<rparr>) (VarType ''map<string>'' T_Unknown None None None :: unit VarType)
       = Some (Some (ErrInvalidMapSyntax ''string''), VarType ''map<string>'' T_Map None None None)
   \<and> CHR '','' \<notin> set ''a'' \<and> \<not> isValidVarKeyType ''a''
   \<and> Parse (Some \<lparr>Messages = []\<rparr>) (VarType ''map<a,b,c>'' T_Unknown None None None :: unit VarType)
       = Some (Some (ErrInvalidMapKey ''a'' ''a,b,c''), VarType ''map<a,b,c>'' T_Map None None None)"
proof -
  have a: "\<not> isValidVarKeyType ''a''" by code_simp
  show ?thesis
    using a
      malformed_map_errors [of "Some (\<lparr>Messages = []\<rparr> :: unit WebRPCSchema)" T_Unknown None None None
        "''string,uint32''" "''string''" "''a''" "''b,c''" "[]"]
    by simp
qed

text \<open>
  C4 (as stated, refuted). \<open>Parse\<close> works on its receiver in place. When the element of
  \<open>[]Foo\<close> fails to resolve, the caller gets the error and a receiver whose type is already
  \<open>T_List\<close>, with a list payload that holds the half-parsed element.
\<close>

theorem partial_state_counterexample:
  "Parse (Some \<lparr>Messages = []\<rparr>) (VarType ''[]Foo'' T_Unknown None None None :: unit VarType)
     = Some (Some (ErrInvalidStruct ''Foo''),
         VarType ''[]Foo'' T_List
           (Some (VarListType (Some (VarType ''Foo'' T_Unknown None None None)))) None None)
   \<and> Type (VarType ''[]Foo'' T_List
           (Some (VarListType (Some (VarType ''Foo'' T_Unknown None None None)))) None None
           :: unit VarType) = T_List"
  by code_simp

text \<open>
  C4 (amended). An error of a nested call is returned unchanged by the enclosing call, in
  the list branch and in the map branch, and \<open>Parse\<close> returns the error of
  \<open>ParseVarTypeExpr\<close> unchanged. On failure \<open>Parse\<close> does not serialise: the receiver
  keeps the expression it was given. Its type and payload fields are as the failed parse
  left them.
\<close>

theorem error_propagates_unchanged:
  "(isListExpr expr \<and>
      ParseVarTypeExpr schema (TrimPrefix expr (DataTypeToString T_List)) zeroVarType
        = Some (Some e, elem) \<longrightarrow>
      ParseVarTypeExpr schema expr vt
        = Some (Some e, set_List (Some (VarListType (Some elem)))
                          (set_Type T_List (set_Expr expr vt))))
   \<and> (exprDataType expr = T_Map \<and> parseMapExpr expr = Some (Inr (key, value)) \<and>
      DataTypeFromString key = Some keyDataType \<and>
      ParseVarTypeExpr schema value zeroVarType = Some (Some e, val) \<longrightarrow>
      ParseVarTypeExpr schema expr vt
        = Some (Some e, set_Map (Some (VarMapType keyDataType (Some val)))
                          (set_Type T_Map (set_Expr expr vt))))
   \<and> (Expr t \<noteq> [] \<and> ParseVarTypeExpr schema (Expr t) t = Some (Some e, t') \<longrightarrow>
      Parse schema t = Some (Some e, t'))
   \<and> (Parse schema t = Some (Some e, t') \<longrightarrow> Expr t' = Expr t)"
proof (intro conjI impI)
  obtain e0 t0 l0 m0 s0 where vt: "vt = VarType e0 t0 l0 m0 s0" by (cases vt)
  show "ParseVarTypeExpr schema expr vt
        = Some (Some e, set_List (Some (VarListType (Some elem)))
                          (set_Type T_List (set_Expr expr vt)))"
    if h: "isListExpr expr \<and>
      ParseVarTypeExpr schema (TrimPrefix expr (DataTypeToString T_List)) zeroVarType
        = Some (Some e, elem)"
  proof -
    have l: "isListExpr expr" using h by simp
    have "TrimPrefix expr (DataTypeToString T_List) = drop 2 expr"
      using l by (simp add: TrimPrefix_def isListExpr_def numeral_2_eq_2)
    then show ?thesis
      using h unfolding vt ParseVarTypeExpr_list [OF l] by simp
  qed
  show "ParseVarTypeExpr schema expr vt
        = Some (Some e, set_Map (Some (VarMapType keyDataType (Some val)))
                          (set_Type T_Map (set_Expr expr vt)))"
    if h: "exprDataType expr = T_Map \<and> parseMapExpr expr = Some (Inr (key, value)) \<and>
      DataTypeFromString key = Some keyDataType \<and>
      ParseVarTypeExpr schema value zeroVarType = Some (Some e, val)"
  proof -
    have m: "exprDataType expr = T_Map" using h by simp
    show ?thesis using h unfolding vt ParseVarTypeExpr_map [OF m] by simp
  qed
  show "Parse schema t = Some (Some e, t')"
    if "Expr t \<noteq> [] \<and> ParseVarTypeExpr schema (Expr t) t = Some (Some e, t')"
    using that by (simp add: Parse_def)
  show "Expr t' = Expr t" if h: "Parse schema t = Some (Some e, t')"
  proof (cases "Expr t = []")
    case True
    then show ?thesis using h by (simp add: Parse_def)
  next
    case False
    then have "ParseVarTypeExpr schema (Expr t) t = Some (Some e, t')"
      using h by (auto simp: Parse_def split: option.splits)
    then show ?thesis using ParseVarTypeExpr_Expr [of schema "Expr t" t "(Some e, t')"] False by auto
  qed
qed

theorem error_propagates_unchanged_witness:
  "isListExpr ''[]Foo''
   \<and> ParseVarTypeExpr (Some \<lparr>Messages = []\<rparr>) (TrimPrefix ''[]Foo'' (DataTypeToString T_List))
        (zeroVarType :: unit VarType)
       = Some (Some (ErrInvalidStruct ''Foo''), VarType ''Foo'' T_Unknown None None None)
   \<and> ParseVarTypeExpr (Some \<lparr>Messages = []\<rparr>) ''[]Foo'' (zeroVarType :: unit VarType)
       = Some (Some (ErrInvalidStruct ''Foo''),
           VarType ''[]Foo'' T_List
             (Some (VarListType (Some (VarType ''Foo'' T_Unknown None None None)))) None None)
   \<and> exprDataType ''map<string,Foo>'' = T_Map
   \<and> parseMapExpr ''map<string,Foo>'' = Some (Inr (''string'', ''Foo''))
   \<and> DataTypeFromString ''string'' = Some T_String
   \<and> ParseVarTypeExpr (Some \<lparr>Messages = []\<rparr>) ''map<string,Foo>'' (zeroVarType :: unit VarType)
       = Some (Some (ErrInvalidStruct ''Foo''),
           VarType ''map<string,Foo>'' T_Map None
             (Some (VarMapType T_String (Some (VarType ''Foo'' T_Unknown None None None)))) None)
   \<and> Parse (Some \<lparr>Messages = []\<rparr>) (VarType ''[]Foo'' T_Unknown None None None :: unit VarType)
       = Some (Some (ErrInvalidStruct ''Foo''),
           VarType ''[]Foo'' T_List
             (Some (VarListType (Some (VarType ''Foo'' T_Unknown None None None)))) None None)"
proof -
  let ?s = "Some (\<lparr>Messages = []\<rparr> :: unit WebRPCSchema)"
  let ?foo = "VarType ''Foo'' T_Unknown None None None :: unit VarType"
  have a: "isListExpr ''[]Foo''" by code_simp
  have b: "ParseVarTypeExpr ?s (TrimPrefix ''[]Foo'' (DataTypeToString T_List)) zeroVarType
       = Some (Some (ErrInvalidStruct ''Foo''), ?foo)" by code_simp
  have c: "exprDataType ''map<string,Foo>'' = T_Map" by code_simp
  have d: "parseMapExpr ''map<string,Foo>'' = Some (Inr (''string'', ''Foo''))" by code_simp
  have f: "DataTypeFromString ''string'' = Some T_String" by code_simp
  have g: "ParseVarTypeExpr ?s ''Foo'' zeroVarType = Some (Some (ErrInvalidStruct ''Foo''), ?foo)"
    by code_simp
  have h: "ParseVarTypeExpr ?s ''[]Foo'' (VarType ''[]Foo'' T_Unknown None None None)
       = Some (Some (ErrInvalidStruct ''Foo''),
           VarType ''[]Foo'' T_List (Some (VarListType (Some ?foo))) None None)" by code_simp
  show ?thesis
    using a b c d f g h
      error_propagates_unchanged [of "''[]Foo''" ?s "ErrInvalidStruct ''Foo''" ?foo zeroVarType
        "''string''" "''Foo''" T_String ?foo
        "VarType ''[]Foo'' T_Unknown None None None"
        "VarType ''[]Foo'' T_List (Some (VarListType (Some ?foo))) None None"]
      error_propagates_unchanged [of "''map<string,Foo>''" ?s "ErrInvalidStruct ''Foo''" ?foo
        zeroVarType "''string''" "''Foo''" T_String ?foo
        "VarType ''[]Foo'' T_Unknown None None None"
        "VarType ''[]Foo'' T_List (Some (VarListType (Some ?foo))) None None"]
    by (simp add: zeroVarType_def)
qed

text \<open>
  C5. An expression is accepted by \<open>parseMapExpr\<close> exactly when it is \<open>map<\<close>, a
  whitelisted key spelling (\<open>string\<close> or an integer type), a comma, any value text, and
  \<open>>\<close> as its last character. The key holds no comma, so it is the contents up to the
  first comma and the value is everything after that comma. Whenever \<open>ParseVarTypeExpr\<close>
  succeeds with \<open>Type = T_Map\<close>, the expression was accepted in this way, and the map
  holds the key's type and the parsed value.
\<close>

theorem map_expression_shape:
  "(parseMapExpr expr = Some (Inr (key, value)) \<longleftrightarrow>
      expr = ''map<'' @ key @ '','' @ value @ ''>'' \<and> isValidVarKeyType key)
   \<and> (isValidVarKeyType key \<longleftrightarrow>
      key \<in> {''string'', ''uint'', ''uint8'', ''uint16'', ''uint32'', ''uint64'',
              ''int'', ''int8'', ''int16'', ''int32'', ''int64''})
   \<and> (isValidVarKeyType key \<longrightarrow> CHR '','' \<notin> set key)
   \<and> (expr \<noteq> [] \<and> ParseVarTypeExpr schema expr vt = Some (None, vt') \<and> Type vt' = T_Map \<longrightarrow>
        (\<exists>k v keyDataType val.
            expr = ''map<'' @ k @ '','' @ v @ ''>'' \<and> isValidVarKeyType k
          \<and> DataTypeFromString k = Some keyDataType
          \<and> ParseVarTypeExpr schema v zeroVarType = Some (None, val)
          \<and> Map vt' = Some (VarMapType keyDataType (Some val))))"
proof (intro conjI impI)
  show "parseMapExpr expr = Some (Inr (key, value)) \<longleftrightarrow>
      expr = ''map<'' @ key @ '','' @ value @ ''>'' \<and> isValidVarKeyType key"
  proof
    assume a: "parseMapExpr expr = Some (Inr (key, value))"
    show "expr = ''map<'' @ key @ '','' @ value @ ''>'' \<and> isValidVarKeyType key"
      using parseMapExpr_shape [OF a] parseMapExpr_Inr [OF a] by blast
  next
    assume "expr = ''map<'' @ key @ '','' @ value @ ''>'' \<and> isValidVarKeyType key"
    then show "parseMapExpr expr = Some (Inr (key, value))"
      using parseMapExpr_accepts by blast
  qed
  show "isValidVarKeyType key \<longleftrightarrow>
      key \<in> {''string'', ''uint'', ''uint8'', ''uint16'', ''uint32'', ''uint64'',
              ''int'', ''int8'', ''int16'', ''int32'', ''int64''}"
    by (rule isValidVarKeyType_iff)
  show "CHR '','' \<notin> set key" if "isValidVarKeyType key"
    using that by (rule isValidVarKeyType_no_comma)
  show "\<exists>k v keyDataType val.
            expr = ''map<'' @ k @ '','' @ v @ ''>'' \<and> isValidVarKeyType k
          \<and> DataTypeFromString k = Some keyDataType
          \<and> ParseVarTypeExpr schema v zeroVarType = Some (None, val)
          \<and> Map vt' = Some (VarMapType keyDataType (Some val))"
    if h: "expr \<noteq> [] \<and> ParseVarTypeExpr schema expr vt = Some (None, vt') \<and> Type vt' = T_Map"
  proof -
    obtain k v keyDataType val where pm: "parseMapExpr expr = Some (Inr (k, v))"
      and r: "DataTypeFromString k = Some keyDataType"
         "ParseVarTypeExpr schema v zeroVarType = Some (None, val)"
         "Map vt' = Some (VarMapType keyDataType (Some val))"
      using ParseVarTypeExpr_Type_Map [of schema expr vt vt'] h by blast
    have "expr = ''map<'' @ k @ '','' @ v @ ''>''" using parseMapExpr_shape [OF pm] .
    moreover have "isValidVarKeyType k" using parseMapExpr_Inr [OF pm] by blast
    ultimately show ?thesis using r by blast
  qed
qed

theorem map_expression_shape_witness:
  "parseMapExpr ''map<string,map<uint8,[]Foo>>'' = Some (Inr (''string'', ''map<uint8,[]Foo>''))
   \<and> ''map<string,map<uint8,[]Foo>>'' = ''map<'' @ ''string'' @ '','' @ ''map<uint8,[]Foo>'' @ ''>''
   \<and> isValidVarKeyType ''string''
   \<and> CHR '','' \<notin> set ''string''
   \<and> ParseVarTypeExpr (Some \<lparr>Messages = [Some (MkMessage ''Foo'' ())]\<rparr>) ''map<string,map<uint8,[]Foo>>''
        zeroVarType
       = Some (None, VarType ''map<string,map<uint8,[]Foo>>'' T_Map None
           (Some (VarMapType T_String (Some
              (VarType ''map<uint8,[]Foo>'' T_Map None
                 (Some (VarMapType T_Uint8 (Some
                    (VarType ''[]Foo'' T_List
                       (Some (VarListType (Some
                          (VarType ''Foo'' T_Struct None None
                             (Some (VarStructType ''Foo'' (Some (MkMessage ''Foo'' ())))))))) None None))))
                 None)))) None)"
proof -
  have a: "parseMapExpr ''map<string,map<uint8,[]Foo>>'' = Some (Inr (''string'', ''map<uint8,[]Foo>''))"
    by code_simp
  have b: "ParseVarTypeExpr (Some \<lparr>Messages = [Some (MkMessage ''Foo'' ())]\<rparr>) ''map<string,map<uint8,[]Foo>>''
        zeroVarType
       = Some (None, VarType ''map<string,map<uint8,[]Foo>>'' T_Map None
           (Some (VarMapType T_String (Some
              (VarType ''map<uint8,[]Foo>'' T_Map None
                 (Some (VarMapType T_Uint8 (Some
                    (VarType ''[]Foo'' T_List
                       (Some (VarListType (Some
                          (VarType ''Foo'' T_Struct None None
                             (Some (VarStructType ''Foo'' (Some (MkMessage ''Foo'' ())))))))) None None))))
                 None)))) None)"
    by code_simp
  show ?thesis
    using a b
      map_expression_shape [of "''map<string,map<uint8,[]Foo>>''" "''string''" "''map<uint8,[]Foo>''"
        "(Some \<lparr>Messages = [Some (MkMessage ''Foo'' ())]\<rparr>)" zeroVarType]
    by simp
qed

text \<open>
  C6. The table lookup comes before the struct resolution: for every catalog and every
  spelling \<open>s\<close> that \<open>DataTypeFromString\<close> maps to a basic type \<open>dt\<close> (not the list
  or map marker), \<open>Parse\<close> succeeds with \<open>Type = dt\<close> and the canonical text \<open>s\<close>,
  whatever messages the catalog holds, and without creating any nested type.
\<close>

theorem primitive_before_struct:
  assumes "DataTypeFromString s = Some dt" and "dt \<noteq> T_List" and "dt \<noteq> T_Map"
  shows "Parse schema (VarType s t0 l0 m0 s0) = Some (None, VarType s dt l0 m0 s0)"
proof -
  have ne: "s \<noteq> []" using assms(1) by (rule DataTypeFromString_nonempty)
  have t: "exprDataType s = dt" using assms(1) by (rule exprDataType_known)
  have u: "dt \<noteq> T_Unknown" using assms(1) DataTypeFromString_not_Unknown [of s] by auto
  have st: "dt \<noteq> T_Struct" using assms(1) DataTypeFromString_not_Struct [of s] by auto
  have p: "ParseVarTypeExpr schema s (VarType s t0 l0 m0 s0) = Some (None, VarType s dt l0 m0 s0)"
    using ParseVarTypeExpr_basic [OF ne t assms(2,3) u] .
  have b: "buildVarTypeExpr (VarType s dt l0 m0 s0) [] = Some s"
    using assms u st DataTypeToString_FromString [OF assms(1)]
    by (simp add: DataType_String_def)
  show ?thesis using ne p b by (simp add: Parse_def)
qed

theorem primitive_before_struct_witness:
  "DataTypeFromString ''uint32'' = Some T_Uint32 \<and> T_Uint32 \<noteq> T_List \<and> T_Uint32 \<noteq> T_Map
   \<and> Parse (Some \<lparr>Messages = [Some (MkMessage ''uint32'' ())]\<rparr>) (VarType ''uint32'' T_Unknown None None None)
       = Some (None, VarType ''uint32'' T_Uint32 None None None)"
proof -
  have a: "DataTypeFromString ''uint32'' = Some T_Uint32" by code_simp
  show ?thesis
    using a primitive_before_struct [OF a, of "(Some \<lparr>Messages = [Some (MkMessage ''uint32'' ())]\<rparr>)"
        T_Unknown None None None]
    by simp
qed

text \<open>
  C7 (as stated, refuted). The bare keyword \<open>map\<close> is not empty, is no primitive spelling
  and starts with neither \<open>[]\<close> nor \<open>map<\<close>, yet it is a key of \<open>DataTypeFromString\<close>
  (the map keyword): it is answered by the map branch with the invalid map expression error,
  also when the catalog holds a message named \<open>map\<close>. And a catalog with a \<open>nil\<close> entry
  before the message makes the lookup panic instead of finding the message.
\<close>

theorem bare_map_keyword_counterexample:
  "''map'' \<noteq> [] \<and> \<not> isListExpr ''map'' \<and> \<not> isMapExpr ''map''
   \<and> DataTypeFromString ''map'' = Some T_Map
   \<and> Parse (Some \<lparr>Messages = [Some (MkMessage ''map'' ())]\<rparr>)
         (VarType ''map'' T_Unknown None None None)
       = Some (Some (ErrInvalidMapExpr ''map''), VarType ''map'' T_Map None None None)
   \<and> spec_kind (ErrInvalidMapExpr ''map'') \<noteq> UnknownType
   \<and> Parse (Some \<lparr>Messages = [None, Some (MkMessage ''User'' ())]\<rparr>)
         (VarType ''User'' T_Unknown None None None)
       = None"
  by code_simp

text \<open>
  C7 (amended). For every non-empty expression \<open>e\<close> that is not a key of
  \<open>DataTypeFromString\<close> (the primitive spellings, the list marker and the map keyword), does
  not start with \<open>[]\<close> and does not start with \<open>map<\<close>, and for every catalog whose
  entries are all messages, \<open>Parse\<close> succeeds exactly when the catalog holds a message whose
  name is \<open>e\<close>. On success the result has \<open>Type = T_Struct\<close>, the name \<open>e\<close> and the
  first message of that name; otherwise the error is "invalid struct/message type" (the
  spec's \<open>UnknownType\<close>) for \<open>e\<close>.
\<close>

theorem struct_resolution:
  assumes "e \<noteq> []" and "DataTypeFromString e = None"
    and "\<not> isListExpr e" and "\<not> isMapExpr e"
  shows "validCatalog (Some \<lparr>Messages = map Some msgs\<rparr>)
         \<and> Parse (Some \<lparr>Messages = map Some msgs\<rparr>) (VarType e t0 l0 m0 s0) =
           (case find (\<lambda>m. Message.Name m = e) msgs of
              None \<Rightarrow> Some (Some (ErrInvalidStruct e), VarType e T_Unknown l0 m0 s0)
            | Some msg \<Rightarrow>
                Some (None, VarType e T_Struct l0 m0 (Some (VarStructType e (Some msg)))))
         \<and> ((\<exists>t'. Parse (Some \<lparr>Messages = map Some msgs\<rparr>) (VarType e t0 l0 m0 s0)
                     = Some (None, t')) \<longleftrightarrow>
              (\<exists>m \<in> set msgs. Message.Name m = e))
         \<and> spec_kind (ErrInvalidStruct e) = UnknownType"
proof -
  let ?schema = "Some \<lparr>Messages = map Some msgs\<rparr>"
  have v: "validCatalog ?schema" by (simp add: validCatalog_def list_all_iff)
  have t: "exprDataType e = T_Unknown" using assms(2,3,4) by (rule exprDataType_unknown)
  have p: "ParseVarTypeExpr ?schema e (VarType e t0 l0 m0 s0) =
           (case find (\<lambda>m. Message.Name m = e) msgs of
              None \<Rightarrow> Some (Some (ErrInvalidStruct e), VarType e T_Unknown l0 m0 s0)
            | Some msg \<Rightarrow>
                Some (None, VarType e T_Struct l0 m0 (Some (VarStructType e (Some msg)))))"
    unfolding ParseVarTypeExpr_struct [OF assms(1) t]
    by (simp add: getMessageType_def findMessage_valid split: option.splits)
  have first: "Parse ?schema (VarType e t0 l0 m0 s0) =
           (case find (\<lambda>m. Message.Name m = e) msgs of
              None \<Rightarrow> Some (Some (ErrInvalidStruct e), VarType e T_Unknown l0 m0 s0)
            | Some msg \<Rightarrow>
                Some (None, VarType e T_Struct l0 m0 (Some (VarStructType e (Some msg)))))"
    using assms(1) p by (simp add: Parse_def split: option.splits)
  have "(\<exists>t'. Parse ?schema (VarType e t0 l0 m0 s0) = Some (None, t')) \<longleftrightarrow>
          find (\<lambda>m. Message.Name m = e) msgs \<noteq> None"
    unfolding first by (auto split: option.splits)
  also have "\<dots> \<longleftrightarrow> (\<exists>m \<in> set msgs. Message.Name m = e)"
    by (auto simp: find_None_iff)
  finally show ?thesis using first v by simp
qed

theorem struct_resolution_witness:
  "''User'' \<noteq> [] \<and> DataTypeFromString ''User'' = None
   \<and> \<not> isListExpr ''User'' \<and> \<not> isMapExpr ''User''
   \<and> Parse (Some \<lparr>Messages = [Some (MkMessage ''Page'' (1::nat)), Some (MkMessage ''User'' 2),
                                 Some (MkMessage ''User'' 3)]\<rparr>)
         (VarType ''User'' T_Unknown None None None)
       = Some (None, VarType ''User'' T_Struct None None
                 (Some (VarStructType ''User'' (Some (MkMessage ''User'' 2)))))
   \<and> Parse (Some \<lparr>Messages = [Some (MkMessage ''Page'' (1::nat)), Some (MkMessage ''user'' 2),
                                 Some (MkMessage ''Users'' 3)]\<rparr>)
         (VarType ''User'' T_Unknown None None None)
       = Some (Some (ErrInvalidStruct ''User''), VarType ''User'' T_Unknown None None None)"
proof -
  have a: "''User'' \<noteq> []" by simp
  have b: "DataTypeFromString ''User'' = None" by code_simp
  have c: "\<not> isListExpr ''User''" by code_simp
  have d: "\<not> isMapExpr ''User''" by code_simp
  show ?thesis
    using a b c d
      struct_resolution [OF a b c d,
        of "[MkMessage ''Page'' (1::nat), MkMessage ''User'' 2, MkMessage ''User'' 3]"
           T_Unknown None None None]
      struct_resolution [OF a b c d,
        of "[MkMessage ''Page'' (1::nat), MkMessage ''user'' 2, MkMessage ''Users'' 3]"
           T_Unknown None None None]
    by simp
qed

text \<open>
  C8 (as stated, refuted). \<open>Parse\<close> panics on a catalog with a \<open>nil\<close> entry, and on a
  \<open>nil\<close> schema, as soon as an expression reaches the message lookup. And an error need
  not carry the expression: for \<open>map<>\<close> the invalid map syntax error carries the empty
  text between the brackets.
\<close>

theorem nil_catalog_entry_counterexample:
  "Parse (Some \<lparr>Messages = [None]\<rparr>) (VarType ''Foo'' T_Unknown None None None :: unit VarType)
     = None
   \<and> Parse None (VarType ''[]Foo'' T_Unknown None None None :: unit VarType) = None
   \<and> Parse (Some \<lparr>Messages = []\<rparr>) (VarType ''map<>'' T_Unknown None None None :: unit VarType)
     = Some (Some (ErrInvalidMapSyntax []), VarType ''map<>'' T_Map None None None)
   \<and> Error (ErrInvalidMapSyntax [])
     = ''schema error: invalid map syntax for '' @ [CHR 0x27, CHR 0x27]"
  by code_simp

text \<open>
  C8 (amended). For every expression and every catalog that is there and holds no \<open>nil\<close>
  entry, \<open>Parse\<close> returns: its result is an error value or the parsed \<open>VarType\<close>, never
  the panic \<open>None\<close>. Every slice of \<open>parseMapExpr\<close> and of \<open>UnmarshalJSON\<close> is in
  bounds for every input, so both always return. A returned error other than the one for the
  empty expression comes from one non-empty sub-expression, a contiguous part of the input:
  either that sub-expression is not a message name and the error carries it, or
  \<open>parseMapExpr\<close> rejects it and the error carries the sub-expression itself, the
  sub-expression without the keyword \<open>map\<close>, or the text between its brackets, which
  may be empty. The text an error carries is part of the input and of the error message.
\<close>

theorem Parse_returns_a_value:
  "(validCatalog schema \<longrightarrow> (\<exists>r. Parse schema t = Some r))
   \<and> (\<forall>e t'. Parse schema t = Some (Some e, t') \<longrightarrow>
        sublist (offending e) (Expr t) \<and> sublist (offending e) (Error e)
        \<and> (e = ErrEmptyExpr \<and> Expr t = []
           \<or> (\<exists>sub. sub \<noteq> [] \<and> sublist sub (Expr t) \<and>
                 (e = ErrInvalidStruct sub \<or> parseMapExpr sub = Some (Inl e)))))
   \<and> (parseMapExpr sub = Some (Inl e) \<longrightarrow>
          e = ErrInvalidMapExpr sub
        \<or> e = ErrInvalidMapSyntax (drop 3 sub)
        \<or> e = ErrInvalidMapSyntax (butlast (drop 4 sub))
        \<or> e = ErrInvalidMapKey (takeWhile (\<lambda>x. x \<noteq> CHR '','') (butlast (drop 4 sub)))
                (butlast (drop 4 sub)))
   \<and> (\<exists>r. parseMapExpr expr = Some r)
   \<and> (\<exists>r. UnmarshalJSON b t = Some r)"
proof (intro conjI)
  show "validCatalog schema \<longrightarrow> (\<exists>r. Parse schema t = Some r)"
  proof
    assume v: "validCatalog schema"
    obtain err t' where r: "ParseVarTypeExpr schema (Expr t) t = Some (err, t')"
      using ParseVarTypeExpr_returns [OF v, of "Expr t" t] by auto
    show "\<exists>r. Parse schema t = Some r"
    proof (cases "Expr t = []")
      case True
      then show ?thesis by (simp add: Parse_def)
    next
      case False
      show ?thesis
      proof (cases err)
        case None
        then obtain c where "buildVarTypeExpr t' [] = Some c"
          using buildVarTypeExpr_after_parse [OF r] False by auto
        then show ?thesis using False r None by (simp add: Parse_def)
      next
        case (Some e)
        then show ?thesis using False r by (simp add: Parse_def)
      qed
    qed
  qed
  show "\<forall>e t'. Parse schema t = Some (Some e, t') \<longrightarrow>
        sublist (offending e) (Expr t) \<and> sublist (offending e) (Error e)
        \<and> (e = ErrEmptyExpr \<and> Expr t = []
           \<or> (\<exists>sub. sub \<noteq> [] \<and> sublist sub (Expr t) \<and>
                 (e = ErrInvalidStruct sub \<or> parseMapExpr sub = Some (Inl e))))"
  proof (intro allI impI)
    fix e t'
    assume p: "Parse schema t = Some (Some e, t')"
    show "sublist (offending e) (Expr t) \<and> sublist (offending e) (Error e)
        \<and> (e = ErrEmptyExpr \<and> Expr t = []
           \<or> (\<exists>sub. sub \<noteq> [] \<and> sublist sub (Expr t) \<and>
                 (e = ErrInvalidStruct sub \<or> parseMapExpr sub = Some (Inl e))))"
    proof (cases "Expr t = []")
      case True
      then have "e = ErrEmptyExpr" using p by (simp add: Parse_def)
      then show ?thesis using True Error_offending by simp
    next
      case False
      then have r: "ParseVarTypeExpr schema (Expr t) t = Some (Some e, t')"
        using p by (auto simp: Parse_def split: option.splits)
      show ?thesis
        using ParseVarTypeExpr_offending [OF r] ParseVarTypeExpr_error_origin [OF r]
          Error_offending [of e]
        by simp
    qed
  qed
  show "parseMapExpr sub = Some (Inl e) \<longrightarrow>
          e = ErrInvalidMapExpr sub
        \<or> e = ErrInvalidMapSyntax (drop 3 sub)
        \<or> e = ErrInvalidMapSyntax (butlast (drop 4 sub))
        \<or> e = ErrInvalidMapKey (takeWhile (\<lambda>x. x \<noteq> CHR '','') (butlast (drop 4 sub)))
                (butlast (drop 4 sub))"
    using parseMapExpr_error_text by blast
  show "\<exists>r. parseMapExpr expr = Some r" by (rule parseMapExpr_returns)
  show "\<exists>r. UnmarshalJSON b t = Some r" by (rule UnmarshalJSON_returns)
qed

theorem Parse_returns_a_value_witness:
  "validCatalog (Some \<lparr>Messages = [Some (MkMessage ''Bar'' ())]\<rparr>)
   \<and> Parse (Some \<lparr>Messages = [Some (MkMessage ''Bar'' ())]\<rparr>)
        (VarType ''[]map<string,Foo>'' T_Unknown None None None)
     = Some (Some (ErrInvalidStruct ''Foo''),
         VarType ''[]map<string,Foo>'' T_List
           (Some (VarListType (Some (VarType ''map<string,Foo>'' T_Map None
              (Some (VarMapType T_String (Some (VarType ''Foo'' T_Unknown None None None))))
              None))))
           None None)
   \<and> sublist (offending (ErrInvalidStruct ''Foo'')) ''[]map<string,Foo>''
   \<and> sublist (offending (ErrInvalidStruct ''Foo'')) (Error (ErrInvalidStruct ''Foo''))
   \<and> parseMapExpr ''map<x,Foo>'' = Some (Inl (ErrInvalidMapKey ''x'' ''x,Foo''))
   \<and> ErrInvalidMapKey ''x'' ''x,Foo''
       = ErrInvalidMapKey (takeWhile (\<lambda>x. x \<noteq> CHR '','') (butlast (drop 4 ''map<x,Foo>'')))
           (butlast (drop 4 ''map<x,Foo>''))
   \<and> parseMapExpr ''map<'' = Some (Inl (ErrInvalidMapSyntax ''<''))
   \<and> UnmarshalJSON [CHR 0x22, CHR ''x'', CHR 0x22]
          (VarType ''[]map<string,Foo>'' T_Unknown None None None :: unit VarType)
       = Some (None, VarType ''x'' T_Unknown None None None)"
proof -
  let ?s = "Some \<lparr>Messages = [Some (MkMessage ''Bar'' ())]\<rparr>"
  let ?t = "VarType ''[]map<string,Foo>'' T_Unknown None None None :: unit VarType"
  have v: "validCatalog ?s" by code_simp
  have p: "Parse ?s ?t
     = Some (Some (ErrInvalidStruct ''Foo''),
         VarType ''[]map<string,Foo>'' T_List
           (Some (VarListType (Some (VarType ''map<string,Foo>'' T_Map None
              (Some (VarMapType T_String (Some (VarType ''Foo'' T_Unknown None None None))))
              None))))
           None None)"
    by code_simp
  have k: "parseMapExpr ''map<x,Foo>'' = Some (Inl (ErrInvalidMapKey ''x'' ''x,Foo''))"
    by code_simp
  have q: "parseMapExpr ''map<'' = Some (Inl (ErrInvalidMapSyntax ''<''))" by code_simp
  have u: "UnmarshalJSON [CHR 0x22, CHR ''x'', CHR 0x22] ?t
       = Some (None, VarType ''x'' T_Unknown None None None)" by code_simp
  show ?thesis
    using Parse_returns_a_value
      [of ?s ?t "''map<x,Foo>''" "ErrInvalidMapKey ''x'' ''x,Foo''" "''map<''"
          "[CHR 0x22, CHR ''x'', CHR 0x22]"] v p k q u
    by simp
qed

text \<open>
  C9. \<open>ParseVarTypeExpr\<close> terminates on every expression: its recursion is well-founded
  on the length of the expression for every catalog, the list branch recurses on the
  expression without its \<open>[]\<close> marker, which is strictly shorter, and the map branch recurses
  on the value substring, which is strictly shorter than the map expression. On a catalog
  that is there and holds no \<open>nil\<close> entry it returns a result for every input.
\<close>

theorem ParseVarTypeExpr_terminates:
  "(validCatalog schema \<longrightarrow> (\<exists>r. ParseVarTypeExpr schema expr vt = Some r))
   \<and> (exprDataType expr = T_List \<longrightarrow>
        HasPrefix expr ''[]'' \<and>
        length (TrimPrefix expr (DataTypeToString T_List)) < length expr)
   \<and> (\<forall>key value. parseMapExpr expr = Some (Inr (key, value)) \<longrightarrow>
        length value < length expr)"
proof (intro conjI allI impI)
  assume "validCatalog schema"
  then show "\<exists>r. ParseVarTypeExpr schema expr vt = Some r"
    by (rule ParseVarTypeExpr_returns)
next
  assume "exprDataType expr = T_List"
  then obtain rest where "expr = ''[]'' @ rest"
    by (auto simp: exprDataType_List isListExpr_iff)
  then show "HasPrefix expr ''[]''"
    and "length (TrimPrefix expr (DataTypeToString T_List)) < length expr"
    by (simp_all add: TrimPrefix_def HasPrefix_def)
next
  fix key "value"
  assume "parseMapExpr expr = Some (Inr (key, value))"
  then show "length value < length expr" by (rule parseMapExpr_value_shorter)
qed

theorem ParseVarTypeExpr_terminates_witness:
  "exprDataType ''[]uint32'' = T_List
   \<and> length (TrimPrefix ''[]uint32'' (DataTypeToString T_List)) < length ''[]uint32''
   \<and> parseMapExpr ''map<string,[]uint32>'' = Some (Inr (''string'', ''[]uint32''))
   \<and> length ''[]uint32'' < length ''map<string,[]uint32>''
   \<and> validCatalog (Some (\<lparr>Messages = []\<rparr> :: unit WebRPCSchema))
   \<and> (\<exists>r. ParseVarTypeExpr (Some \<lparr>Messages = []\<rparr>) ''map<string,[]uint32>''
            (zeroVarType :: unit VarType) = Some r)"
proof -
  let ?s = "Some (\<lparr>Messages = []\<rparr> :: unit WebRPCSchema)"
  have a: "exprDataType ''[]uint32'' = T_List" by code_simp
  have b: "parseMapExpr ''map<string,[]uint32>'' = Some (Inr (''string'', ''[]uint32''))"
    by code_simp
  have v: "validCatalog ?s" by code_simp
  show ?thesis
    using a b v
      ParseVarTypeExpr_terminates [of ?s "''[]uint32''" "zeroVarType :: unit VarType"]
      ParseVarTypeExpr_terminates [of ?s "''map<string,[]uint32>''" "zeroVarType :: unit VarType"]
    by simp
qed

text \<open>
  C10. The error "invalid map key type" of \<open>ParseVarTypeExpr\<close> is unreachable: a key
  that \<open>parseMapExpr\<close> returns without error is in \<open>DataTypeFromString\<close>, and no
  call of \<open>ParseVarTypeExpr\<close> returns that error.
\<close>

theorem map_key_type_error_unreachable:
  "(\<forall>key value. parseMapExpr expr = Some (Inr (key, value)) \<longrightarrow>
       (\<exists>keyDataType. DataTypeFromString key = Some keyDataType))
   \<and> (\<forall>err vt'. ParseVarTypeExpr schema expr vt = Some (err, vt') \<longrightarrow>
       (\<forall>key e. err \<noteq> Some (ErrInvalidMapKeyType key e)))"
proof (intro conjI allI impI)
  fix key "value"
  assume "parseMapExpr expr = Some (Inr (key, value))"
  then show "\<exists>keyDataType. DataTypeFromString key = Some keyDataType"
    using parseMapExpr_key_known by blast
next
  fix err vt' key e
  assume "ParseVarTypeExpr schema expr vt = Some (err, vt')"
  then show "err \<noteq> Some (ErrInvalidMapKeyType key e)"
    using ParseVarTypeExpr_no_key_type_error [of schema expr vt "(err, vt')"] by auto
qed

theorem map_key_type_error_unreachable_witness:
  "parseMapExpr ''map<int64,Foo>'' = Some (Inr (''int64'', ''Foo''))
   \<and> (\<exists>keyDataType. DataTypeFromString ''int64'' = Some keyDataType)
   \<and> ParseVarTypeExpr (Some \<lparr>Messages = []\<rparr>) ''map<int64,Foo>'' (zeroVarType :: unit VarType)
       = Some (Some (ErrInvalidStruct ''Foo''),
           VarType ''map<int64,Foo>'' T_Map None
            (Some (VarMapType T_Int64 (Some (VarType ''Foo'' T_Unknown None None None)))) None)
   \<and> Some (ErrInvalidStruct ''Foo'') \<noteq> Some (ErrInvalidMapKeyType ''int64'' ''map<int64,Foo>'')"
proof -
  have a: "parseMapExpr ''map<int64,Foo>'' = Some (Inr (''int64'', ''Foo''))" by code_simp
  have b: "ParseVarTypeExpr (Some \<lparr>Messages = []\<rparr>) ''map<int64,Foo>'' (zeroVarType :: unit VarType)
       = Some (Some (ErrInvalidStruct ''Foo''),
           VarType ''map<int64,Foo>'' T_Map None
            (Some (VarMapType T_Int64 (Some (VarType ''Foo'' T_Unknown None None None)))) None)"
    by code_simp
  show ?thesis
    using a b
      map_key_type_error_unreachable
        [of "''map<int64,Foo>''" "(Some \<lparr>Messages = []\<rparr>)" "zeroVarType :: unit VarType"]
    by simp
qed

end
